theory Spec2Isabelle
  imports Main "HOL-Library.Word"
begin

unbundle bit_operations_syntax

section \<open>The OCR comparison notebook (vision/ocr.ipynb)\<close>

text \<open>
  The notebook loads an image, runs Tesseract and the Google Vision API on it, walks the
  hierarchical results and draws bounding shapes on copies of the image. Its own code is
  embedded here function by function. Calls into OpenCV, gcsfs, PIL, tesserocr and the
  Vision client are calls into a record of library operations (\<open>lib\<close>), each of which
  may raise; the few library operations whose documented result a property depends on
  are written out and marked as such.
\<close>

subsection \<open>The cloud engine's result hierarchy\<close>

text \<open>
  The messages of the Vision API that the notebook reads, with the fields it reads:
  page, block, paragraph, word, symbol, each level holding the list of the next one and
  a bounding polygon. A symbol's property may hold a \<open>detected_break\<close> message, whose
  field \<open>type\<close> (here \<open>break_type\<close>) is a value of the enum \<open>BreakType\<close>.
\<close>

datatype BreakType = UNKNOWN | SPACE | SURE_SPACE | EOL_SURE_SPACE | HYPHEN | LINE_BREAK

record DetectedBreak =
  break_type :: BreakType
  is_prefix :: bool

record TextProperty =
  detected_break :: "DetectedBreak option"

record Vertex =
  x :: int
  y :: int

record BoundingPoly =
  vertices :: "Vertex list"

record Symbol =
  symbol_text :: string
  property :: TextProperty

record Word =
  symbols :: "Symbol list"
  word_bounding_box :: BoundingPoly

record Paragraph =
  words :: "Word list"
  paragraph_bounding_box :: BoundingPoly

record Block =
  paragraphs :: "Paragraph list"
  block_bounding_box :: BoundingPoly

record Page =
  blocks :: "Block list"

subsection \<open>Python operations used by the text reconstruction\<close>

text \<open>
  \<open>HasField\<close> of a protobuf message says whether a message-typed field is set; reading
  an unset field gives the default message.
\<close>

definition HasField_detected_break :: "TextProperty \<Rightarrow> bool" where
  "HasField_detected_break p = (detected_break p \<noteq> None)"

definition get_detected_break :: "TextProperty \<Rightarrow> DetectedBreak" where
  "get_detected_break p =
     (case detected_break p of
        None \<Rightarrow> \<lparr>break_type = UNKNOWN, is_prefix = False\<rparr>
      | Some d \<Rightarrow> d)"

text \<open>
  The two kinds of Python object that \<open>get_symbol_text\<close> compares with \<open>==\<close>: the
  \<open>DetectedBreak\<close> message read from the property (the field whose presence
  \<open>HasField\<close> was asked about), and a member of the integer enum
  \<open>DetectedBreak.BreakType\<close>, which is nested in that message and is the type of its
  field \<open>type\<close>, not of the message. Python's \<open>==\<close> on a protobuf message is true
  only for a message of the same type with equal fields; against any other object, an
  integer enum member included, it is false.
\<close>

datatype pyobj = PyMessage DetectedBreak | PyIntEnum BreakType

fun py_eq :: "pyobj \<Rightarrow> pyobj \<Rightarrow> bool" where
  "py_eq (PyMessage a) (PyMessage b) = (a = b)"
| "py_eq (PyIntEnum a) (PyIntEnum b) = (a = b)"
| "py_eq (PyMessage a) (PyIntEnum b) = False"
| "py_eq (PyIntEnum a) (PyMessage b) = False"

text \<open>
  \<open>sep.join(xs)\<close>: the strings of \<open>xs\<close> in order, with \<open>sep\<close> between neighbours.
\<close>

fun join :: "string \<Rightarrow> string list \<Rightarrow> string" where
  "join sep [] = []"
| "join sep [s] = s"
| "join sep (s # t # ts) = s @ sep @ join sep (t # ts)"

subsection \<open>Text reconstruction\<close>

text \<open>
  \<^verbatim>\<open>
  def get_symbol_text(symbol):
      text = symbol.text
      if symbol.property.HasField('detected_break'):
          if symbol.property.detected_break == vision.enums.TextAnnotation.DetectedBreak.BreakType.LINE_BREAK:
              text += "\n"
          else:
              text += " "
      return text
  \<close>
\<close>

definition get_symbol_text :: "Symbol \<Rightarrow> string" where
  "get_symbol_text symbol =
     (let text0 = symbol_text symbol in
      if HasField_detected_break (property symbol) then
        (if py_eq (PyMessage (get_detected_break (property symbol))) (PyIntEnum LINE_BREAK)
         then text0 @ [CHR 0x0A]
         else text0 @ '' '')
      else text0)"

text \<open>
  \<^verbatim>\<open>
  def get_word_text(word):
      return "".join([get_symbol_text(x) for x in word.symbols])
  def get_paragraph_text(para):
      return "".join([get_word_text(x) for x in para.words])
  def get_block_text(block):
      return "".join([get_paragraph_text(x) for x in block.paragraphs])
  \<close>
\<close>

definition get_word_text :: "Word \<Rightarrow> string" where
  "get_word_text word = join [] (map get_symbol_text (symbols word))"

definition get_paragraph_text :: "Paragraph \<Rightarrow> string" where
  "get_paragraph_text para = join [] (map get_word_text (words para))"

definition get_block_text :: "Block \<Rightarrow> string" where
  "get_block_text block = join [] (map get_paragraph_text (paragraphs block))"

subsection \<open>Images, exceptions and the library the notebook calls\<close>

text \<open>
  An image is an array of 8-bit values: rows of pixels, a pixel being the list of its
  channel values (three for a colour image in OpenCV's BGR order, one for a grayscale
  image). Encoded files and buffers are byte lists.
\<close>

type_synonym bytes = "8 word list"

type_synonym mat = "8 word list list list"

datatype exn = IndexError | TypeError | FileNotFoundError | Cv2Error | LibError string

datatype gcs_file = GCSFile string

datatype pil_image = PilImage mat

record vision_Image =
  content :: bytes

record ImageContext =
  language_hints :: "string list"

record TextAnnotation =
  pages :: "Page list"

record AnnotateImageResponse =
  full_text_annotation :: TextAnnotation

datatype PSM = SINGLE_BLOCK | SPARSE_TEXT | SINGLE_COLUMN

datatype RIL = BLOCK | PARA | TEXTLINE | WORD | SYMBOL

text \<open>
  One position of a Tesseract result iterator at a level: what \<open>GetUTF8Text(level)\<close>
  gives there (it raises when the engine has no text) and what \<open>BoundingBox(level)\<close>
  gives (a 4-tuple, or None).
\<close>

record tess_node =
  GetUTF8Text :: "exn + string"
  BoundingBox :: "(int \<times> int \<times> int \<times> int) option"

text \<open>
  The library operations the notebook calls. None of them is code of the notebook; each
  is a parameter, and each may raise. \<open>cv2_imread\<close> and \<open>cv2_imdecode\<close> return an
  optional image because OpenCV answers None, not an exception, for a file or a buffer
  it cannot decode. An engine configuration of Tesseract is identified by its page
  segmentation mode. The drawing operations return the new contents of the array they
  draw on.
\<close>

record lib =
  gcs_open :: "string \<Rightarrow> string \<Rightarrow> exn + gcs_file"
  gcs_file_read :: "gcs_file \<Rightarrow> exn + bytes"
  cv2_imdecode :: "bytes \<Rightarrow> nat \<Rightarrow> exn + mat option"
  cv2_imread :: "string \<Rightarrow> nat \<Rightarrow> exn + mat option"
  gray_of_bgr :: "8 word \<Rightarrow> 8 word \<Rightarrow> 8 word \<Rightarrow> 8 word"
  otsu_threshold :: "mat \<Rightarrow> nat"
  triangle_threshold :: "mat \<Rightarrow> nat"
  Image_fromarray :: "mat \<Rightarrow> exn + pil_image"
  Image_save :: "pil_image \<Rightarrow> string \<Rightarrow> exn + bytes"
  text_detection :: "vision_Image \<Rightarrow> ImageContext \<Rightarrow> exn + AnnotateImageResponse"
  document_text_detection :: "vision_Image \<Rightarrow> ImageContext \<Rightarrow> exn + AnnotateImageResponse"
  tess_SetImage :: "PSM \<Rightarrow> pil_image \<Rightarrow> exn + unit"
  tess_Recognize :: "PSM \<Rightarrow> pil_image \<Rightarrow> exn + unit"
  tess_iterate_level :: "PSM \<Rightarrow> pil_image \<Rightarrow> RIL \<Rightarrow> tess_node list"
  cv2_rectangle :: "mat \<Rightarrow> int \<times> int \<Rightarrow> int \<times> int \<Rightarrow> nat \<times> nat \<times> nat \<Rightarrow> nat \<Rightarrow> exn + mat"
  cv2_polylines :: "mat \<Rightarrow> int list list list \<Rightarrow> bool \<Rightarrow> nat \<times> nat \<times> nat \<Rightarrow> nat \<Rightarrow> exn + mat"

subsection \<open>Calls that leave the notebook, and exceptions\<close>

text \<open>
  A run of a function that talks to storage, to a decoder or to a remote endpoint is the
  list of the calls it made, in order, with the value it returned or the exception it
  raised. An exception ends the run: \<open>and_then\<close> does not run its continuation after
  one. \<open>on_exit\<close> is the exit of a \<open>with\<close> block, which closes the file whether the
  body returned or raised, and lets the body's outcome through.
\<close>

datatype call =
    GcsOpen string string
  | GcsRead gcs_file
  | GcsClose gcs_file
  | ImDecode bytes nat
  | ImRead string nat
  | FromArray mat
  | Save pil_image string
  | TextDetection vision_Image ImageContext
  | DocumentTextDetection vision_Image ImageContext

type_synonym 'a act = "call list \<times> (exn + 'a)"

definition ret :: "'a \<Rightarrow> 'a act" where
  "ret v = ([], Inr v)"

definition invoke :: "call \<Rightarrow> exn + 'a \<Rightarrow> 'a act" where
  "invoke c r = ([c], r)"

definition and_then :: "'a act \<Rightarrow> ('a \<Rightarrow> 'b act) \<Rightarrow> 'b act" where
  "and_then m k =
     (case snd m of
        Inl e \<Rightarrow> (fst m, Inl e)
      | Inr v \<Rightarrow> (fst m @ fst (k v), snd (k v)))"

definition on_exit :: "'a act \<Rightarrow> call \<Rightarrow> 'a act" where
  "on_exit m c = (fst m @ [c], snd m)"

text \<open>\<open>xs[0]\<close>: the first item, IndexError on an empty sequence.\<close>

definition first_item :: "'a list \<Rightarrow> 'a act" where
  "first_item xs = (case xs of [] \<Rightarrow> ([], Inl IndexError) | v # _ \<Rightarrow> ([], Inr v))"

text \<open>\<open>s.startswith(p)\<close>: the first \<open>len(p)\<close> characters of \<open>s\<close> are \<open>p\<close>.\<close>

definition startswith :: "string \<Rightarrow> string \<Rightarrow> bool" where
  "startswith s p = (take (length p) s = p)"

text \<open>\<open>np.asarray(bytearray(data), dtype="uint8")\<close>: the same bytes, as an array.\<close>

definition np_asarray_uint8 :: "bytes \<Rightarrow> bytes" where
  "np_asarray_uint8 data = data"

definition IMREAD_COLOR :: nat where
  "IMREAD_COLOR = 1"

subsection \<open>Loading the image\<close>

text \<open>
  \<^verbatim>\<open>
  def imread_wrapper(uri):
      if uri.startswith("gs://"):
          with gcsfs.GCSFileSystem().open(uri, "rb") as f:
              arr = np.asarray(bytearray(f.read()), dtype="uint8")
              img = cv2.imdecode(arr, cv2.IMREAD_COLOR)
              return img
      else: # Assume local file
          return cv2.imread(uri, cv2.IMREAD_COLOR)
  \<close>
\<close>

definition imread_wrapper :: "lib \<Rightarrow> string \<Rightarrow> (mat option) act" where
  "imread_wrapper L uri =
     (if startswith uri ''gs://'' then
        and_then (invoke (GcsOpen uri ''rb'') (gcs_open L uri ''rb'')) (\<lambda>f.
          on_exit
            (and_then (invoke (GcsRead f) (gcs_file_read L f)) (\<lambda>data.
               let arr = np_asarray_uint8 data in
               and_then (invoke (ImDecode arr IMREAD_COLOR) (cv2_imdecode L arr IMREAD_COLOR)) (\<lambda>img.
                 ret img)))
            (GcsClose f))
      else
        invoke (ImRead uri IMREAD_COLOR) (cv2_imread L uri IMREAD_COLOR))"

subsection \<open>Optional preprocessing\<close>

text \<open>
  The OpenCV operations of the preprocessing step, written out from OpenCV's
  documentation for 8-bit images. \<open>cvtColor\<close> with \<open>COLOR_BGR2GRAY\<close> takes a non-empty
  image of 3 or 4 channels to one channel (the weighting of the channels is the
  library's, \<open>gray_of_bgr\<close>); with \<open>COLOR_GRAY2BGR\<close> it takes a non-empty image of one
  channel to three equal channels. Anything else, None included, raises.
\<close>

datatype ColorConversionCode = COLOR_BGR2GRAY | COLOR_GRAY2BGR

definition channels_are :: "nat \<Rightarrow> mat \<Rightarrow> bool" where
  "channels_are n m = list_all (list_all (\<lambda>px. length px = n)) m"

definition pixel_values :: "mat \<Rightarrow> 8 word list" where
  "pixel_values m = concat (concat m)"

definition cvtColor :: "lib \<Rightarrow> mat option \<Rightarrow> ColorConversionCode \<Rightarrow> exn + mat" where
  "cvtColor L src code =
     (case src of
        None \<Rightarrow> Inl Cv2Error
      | Some m \<Rightarrow>
          if concat m = [] then Inl Cv2Error
          else
            (case code of
               COLOR_BGR2GRAY \<Rightarrow>
                 if channels_are 3 m \<or> channels_are 4 m
                 then Inr (map (map (\<lambda>px. [gray_of_bgr L (px ! 0) (px ! 1) (px ! 2)])) m)
                 else Inl Cv2Error
             | COLOR_GRAY2BGR \<Rightarrow>
                 if channels_are 1 m
                 then Inr (map (map (\<lambda>px. [px ! 0, px ! 0, px ! 0])) m)
                 else Inl Cv2Error))"

text \<open>
  \<open>cv2.threshold(src, thresh, maxval, type)\<close> on an 8-bit image. The low three bits of
  \<open>type\<close> select the operation, the bits above them an automatic choice of the
  threshold (Otsu's or the triangle method, on one channel only), which replaces
  \<open>thresh\<close>; asking for both methods at once raises, any other value of those bits
  leaves \<open>thresh\<close> as given. It returns the threshold used and the new image.
\<close>

definition THRESH_BINARY :: nat where
  "THRESH_BINARY = 0"

definition THRESH_OTSU :: nat where
  "THRESH_OTSU = 8"

definition threshold_pixel :: "nat \<Rightarrow> nat \<Rightarrow> 8 word \<Rightarrow> 8 word \<Rightarrow> 8 word" where
  "threshold_pixel ty t maxval v =
     (if ty = 0 then (if t < unat v then maxval else 0)
      else if ty = 1 then (if t < unat v then 0 else maxval)
      else if ty = 2 then (if t < unat v then of_nat t else v)
      else if ty = 3 then (if t < unat v then v else 0)
      else (if t < unat v then 0 else v))"

definition cv2_threshold :: "lib \<Rightarrow> mat \<Rightarrow> nat \<Rightarrow> nat \<Rightarrow> nat \<Rightarrow> exn + nat \<times> mat" where
  "cv2_threshold L src thresh maxval type =
     (let ty = take_bit 3 type; automatic = drop_bit 3 type in
      if concat src = [] \<or> 4 < ty \<or> automatic = 3 then Inl Cv2Error
      else if (automatic = 1 \<or> automatic = 2) \<and> \<not> channels_are 1 src then Inl Cv2Error
      else
        let t = (if automatic = 1 then otsu_threshold L src
                 else if automatic = 2 then triangle_threshold L src
                 else thresh)
        in Inr (t, map (map (map (threshold_pixel ty t (of_nat (min 255 maxval))))) src))"

text \<open>
  \<^verbatim>\<open>
  PERFORM_THRESHOLDING = False
  img = imread_wrapper("gs://fuzzylabs-jupyter-delicacies/receipt.jpg")
  if PERFORM_THRESHOLDING:
      _, img = cv2.threshold(cv2.cvtColor(img, cv2.COLOR_BGR2GRAY), 0, 255, cv2.THRESH_BINARY | cv2.THRESH_OTSU)
      img = cv2.cvtColor(img, cv2.COLOR_GRAY2BGR)
  \<close>
  \<open>threshold_step\<close> is the first statement under the toggle (its second component is the
  single-channel intermediate), \<open>preprocess\<close> the whole conditional.
\<close>

definition threshold_step :: "lib \<Rightarrow> mat option \<Rightarrow> exn + nat \<times> mat" where
  "threshold_step L img =
     (case cvtColor L img COLOR_BGR2GRAY of
        Inl e \<Rightarrow> Inl e
      | Inr gray \<Rightarrow> cv2_threshold L gray 0 255 (THRESH_BINARY OR THRESH_OTSU))"

definition preprocess :: "lib \<Rightarrow> bool \<Rightarrow> mat option \<Rightarrow> exn + mat option" where
  "preprocess L PERFORM_THRESHOLDING img =
     (if PERFORM_THRESHOLDING then
        (case threshold_step L img of
           Inl e \<Rightarrow> Inl e
         | Inr (_, img1) \<Rightarrow>
             (case cvtColor L (Some img1) COLOR_GRAY2BGR of
                Inl e \<Rightarrow> Inl e
              | Inr img2 \<Rightarrow> Inr (Some img2)))
      else Inr img)"

subsection \<open>Cloud OCR invocation\<close>

text \<open>
  \<^verbatim>\<open>
  def google_document_text_detection(img):
      buf = io.BytesIO()
      img_pil = Image.fromarray(img)
      img_pil.save(buf, 'PNG')
      byte_image = buf.getvalue()

      document_image = vision.types.Image(content=byte_image)
      image_response = google_image_annotator.document_text_detection(image=document_image, image_context={"language_hints": ["en"]})
      page = image_response.full_text_annotation.pages[0]
      return page
  \<close>
  \<open>google_text_detection\<close> is the same text with \<open>text_detection\<close> as the endpoint.
  \<open>Image_save\<close> gives the bytes that \<open>save\<close> writes to the buffer, which was empty, so
  they are what \<open>getvalue\<close> returns.
\<close>

definition google_document_text_detection :: "lib \<Rightarrow> mat \<Rightarrow> Page act" where
  "google_document_text_detection L img =
     and_then (invoke (FromArray img) (Image_fromarray L img)) (\<lambda>img_pil.
     and_then (invoke (Save img_pil ''PNG'') (Image_save L img_pil ''PNG'')) (\<lambda>byte_image.
     let document_image = \<lparr>content = byte_image\<rparr>;
         image_context = \<lparr>language_hints = [''en'']\<rparr> in
     and_then (invoke (DocumentTextDetection document_image image_context)
                 (document_text_detection L document_image image_context)) (\<lambda>image_response.
     and_then (first_item (pages (full_text_annotation image_response))) (\<lambda>page.
     ret page))))"

definition google_text_detection :: "lib \<Rightarrow> mat \<Rightarrow> Page act" where
  "google_text_detection L img =
     and_then (invoke (FromArray img) (Image_fromarray L img)) (\<lambda>img_pil.
     and_then (invoke (Save img_pil ''PNG'') (Image_save L img_pil ''PNG'')) (\<lambda>byte_image.
     let document_image = \<lparr>content = byte_image\<rparr>;
         image_context = \<lparr>language_hints = [''en'']\<rparr> in
     and_then (invoke (TextDetection document_image image_context)
                 (text_detection L document_image image_context)) (\<lambda>image_response.
     and_then (first_item (pages (full_text_annotation image_response))) (\<lambda>page.
     ret page))))"


subsection \<open>Arrays that are drawn on\<close>

text \<open>
  The renderers copy the image and draw on the copy in place, so here arrays live in a
  store and are passed by reference: a reference is an index into the list of allocated
  arrays, \<open>copy\<close> allocates a new array at the end, and a drawing call replaces the
  contents at the reference it is given. A function over the store returns its result
  or exception together with the store it leaves. A reference outside the store cannot
  arise in Python; \<open>deref\<close> raises there so that every function is defined everywhere.
\<close>

type_synonym store = "mat list"

type_synonym 'a run = "(exn + 'a) \<times> store"

definition deref :: "store \<Rightarrow> nat \<Rightarrow> exn + mat" where
  "deref h r = (if r < length h then Inr (h ! r) else Inl (LibError ''dangling reference''))"

definition ndarray_copy :: "store \<Rightarrow> nat \<Rightarrow> nat run" where
  "ndarray_copy h r =
     (case deref h r of
        Inl e \<Rightarrow> (Inl e, h)
      | Inr m \<Rightarrow> (Inr (length h), h @ [m]))"

text \<open>
  A \<open>for\<close> statement over a sequence whose body updates a local accumulator and the
  store: the body runs on the items in order, and the first exception ends the loop.
\<close>

fun for_loop :: "('a \<Rightarrow> 'b \<Rightarrow> store \<Rightarrow> 'b run) \<Rightarrow> 'a list \<Rightarrow> 'b \<Rightarrow> store \<Rightarrow> 'b run" where
  "for_loop body [] acc h = (Inr acc, h)"
| "for_loop body (v # vs) acc h =
     (case body v acc h of
        (Inl e, h') \<Rightarrow> (Inl e, h')
      | (Inr acc', h') \<Rightarrow> for_loop body vs acc' h')"

subsection \<open>Overlay of the cloud engine's results\<close>

text \<open>
  \<^verbatim>\<open>
  def add_bounding_box(img, bb):
      cv2.polylines(img, [np.array([[point.x, point.y] for point in bb])], True, (255, 0, 0), 2)
  \<close>
\<close>

definition add_bounding_box :: "lib \<Rightarrow> nat \<Rightarrow> Vertex list \<Rightarrow> store \<Rightarrow> unit run" where
  "add_bounding_box L img bb h =
     (case deref h img of
        Inl e \<Rightarrow> (Inl e, h)
      | Inr m \<Rightarrow>
          (case cv2_polylines L m [map (\<lambda>point. [x point, y point]) bb] True (255, 0, 0) 2 of
             Inl e \<Rightarrow> (Inl e, h)
           | Inr m' \<Rightarrow> (Inr (), h[img := m'])))"

text \<open>
  \<^verbatim>\<open>
  def get_google_words(page, img):
      _img = img.copy()
      texts = []
      for block in page.blocks:
          for para in block.paragraphs:
              for word in para.words:
                  texts += [get_word_text(word)]
                  add_bounding_box(_img, word.bounding_box.vertices)
      return texts, _img
  \<close>
  The copy \<open>_img\<close> is \<open>img1\<close> here.
\<close>

definition get_google_words :: "lib \<Rightarrow> Page \<Rightarrow> nat \<Rightarrow> store \<Rightarrow> (string list \<times> nat) run" where
  "get_google_words L page img h =
     (case ndarray_copy h img of
        (Inl e, h1) \<Rightarrow> (Inl e, h1)
      | (Inr img1, h1) \<Rightarrow>
          (case for_loop (\<lambda>block.
                  for_loop (\<lambda>para.
                    for_loop (\<lambda>word texts h'.
                      let texts' = texts @ [get_word_text word] in
                      case add_bounding_box L img1 (vertices (word_bounding_box word)) h' of
                        (Inl e, h'') \<Rightarrow> (Inl e, h'')
                      | (Inr _, h'') \<Rightarrow> (Inr texts', h''))
                    (words para))
                  (paragraphs block))
                (blocks page) [] h1 of
             (Inl e, h2) \<Rightarrow> (Inl e, h2)
           | (Inr texts, h2) \<Rightarrow> (Inr (texts, img1), h2)))"

text \<open>
  \<^verbatim>\<open>
  def get_google_paragraphs(page, img):
      _img = img.copy()
      texts = []
      for block in page.blocks:
          for para in block.paragraphs:
              texts += [get_paragraph_text(para)]
              add_bounding_box(_img, para.bounding_box.vertices)
      return texts, _img
  \<close>
\<close>

definition get_google_paragraphs :: "lib \<Rightarrow> Page \<Rightarrow> nat \<Rightarrow> store \<Rightarrow> (string list \<times> nat) run" where
  "get_google_paragraphs L page img h =
     (case ndarray_copy h img of
        (Inl e, h1) \<Rightarrow> (Inl e, h1)
      | (Inr img1, h1) \<Rightarrow>
          (case for_loop (\<lambda>block.
                  for_loop (\<lambda>para texts h'.
                    let texts' = texts @ [get_paragraph_text para] in
                    case add_bounding_box L img1 (vertices (paragraph_bounding_box para)) h' of
                      (Inl e, h'') \<Rightarrow> (Inl e, h'')
                    | (Inr _, h'') \<Rightarrow> (Inr texts', h''))
                  (paragraphs block))
                (blocks page) [] h1 of
             (Inl e, h2) \<Rightarrow> (Inl e, h2)
           | (Inr texts, h2) \<Rightarrow> (Inr (texts, img1), h2)))"

text \<open>
  \<^verbatim>\<open>
  def get_google_blocks(page, img):
      _img = img.copy()
      texts = []
      for block in page.blocks:
          texts += [get_block_text(block)]
          add_bounding_box(_img, block.bounding_box.vertices)
      return texts, _img
  \<close>
\<close>

definition get_google_blocks :: "lib \<Rightarrow> Page \<Rightarrow> nat \<Rightarrow> store \<Rightarrow> (string list \<times> nat) run" where
  "get_google_blocks L page img h =
     (case ndarray_copy h img of
        (Inl e, h1) \<Rightarrow> (Inl e, h1)
      | (Inr img1, h1) \<Rightarrow>
          (case for_loop (\<lambda>block texts h'.
                  let texts' = texts @ [get_block_text block] in
                  case add_bounding_box L img1 (vertices (block_bounding_box block)) h' of
                    (Inl e, h'') \<Rightarrow> (Inl e, h'')
                  | (Inr _, h'') \<Rightarrow> (Inr texts', h''))
                (blocks page) [] h1 of
             (Inl e, h2) \<Rightarrow> (Inl e, h2)
           | (Inr texts, h2) \<Rightarrow> (Inr (texts, img1), h2)))"

subsection \<open>Local OCR invocation and its overlay\<close>

text \<open>
  \<^verbatim>\<open>
  tesseract_modes = [
      ("Tesseract SINGLE BLOCK", PyTessBaseAPI(psm=PSM.SINGLE_BLOCK)),
      ("Tesseract SPARSE TEXT", PyTessBaseAPI(psm=PSM.SPARSE_TEXT)),
      ("Tesseract SINGLE COLUMN", PyTessBaseAPI(psm=PSM.SINGLE_COLUMN))
  ]

  def tesseract_ocr(tesseract, img):
      pil_image = Image.fromarray(img)
      tesseract.SetImage(pil_image)
      tesseract.Recognize()
      return tesseract.GetIterator()
  \<close>
  The iterator returned is the engine with the image it has recognised.
\<close>

definition tesseract_modes :: "(string \<times> PSM) list" where
  "tesseract_modes =
     [(''Tesseract SINGLE BLOCK'', SINGLE_BLOCK),
      (''Tesseract SPARSE TEXT'', SPARSE_TEXT),
      (''Tesseract SINGLE COLUMN'', SINGLE_COLUMN)]"

definition tesseract_ocr :: "lib \<Rightarrow> PSM \<Rightarrow> mat \<Rightarrow> exn + PSM \<times> pil_image" where
  "tesseract_ocr L tesseract img =
     (case Image_fromarray L img of
        Inl e \<Rightarrow> Inl e
      | Inr pil_image \<Rightarrow>
          (case tess_SetImage L tesseract pil_image of
             Inl e \<Rightarrow> Inl e
           | Inr _ \<Rightarrow>
               (case tess_Recognize L tesseract pil_image of
                  Inl e \<Rightarrow> Inl e
                | Inr _ \<Rightarrow> Inr (tesseract, pil_image))))"

text \<open>
  \<^verbatim>\<open>
  def display_tesseract_results(img, level):
      n = len(tesseract_modes)
      fig, axs = plt.subplots(1,n, figsize=(5*n, 88))
      for (name, tesseract), ax in zip(tesseract_modes, axs):
          results = tesseract_ocr(tesseract, img)
          _img = img.copy()
          tokens = []
          for r in iterate_level(results, level):
              text = r.GetUTF8Text(level)
              tokens += [text]
              bb = r.BoundingBox(level)
              cv2.rectangle(_img, (bb[0], bb[1]), (bb[2], bb[3]), (255, 0, 0), 2)
          print(name)
          print(tokens)
          print()
          ax.set_title(name)
          ax.imshow(_img)
  \<close>
  What the function shows is returned as a list: for each engine configuration the
  axis, the name and the tokens printed, and the reference of the array shown on the
  axis. \<open>plt.subplots(1, n)\<close> gives the \<open>n\<close> axes \<open>0, ..., n - 1\<close> (\<open>n\<close> is 3).
  \<open>draw_tesseract_node\<close> is the body of the inner loop, \<open>display_tesseract_mode\<close>
  the body of the outer one.
\<close>

definition draw_tesseract_node ::
  "lib \<Rightarrow> RIL \<Rightarrow> nat \<Rightarrow> tess_node \<Rightarrow> string list \<Rightarrow> store \<Rightarrow> (string list) run" where
  "draw_tesseract_node L level img1 r tokens h' =
     (case GetUTF8Text r of
        Inl e \<Rightarrow> (Inl e, h')
      | Inr text0 \<Rightarrow>
          let tokens' = tokens @ [text0] in
          (case BoundingBox r of
             None \<Rightarrow> (Inl TypeError, h')
           | Some (bb0, bb1, bb2, bb3) \<Rightarrow>
               (case deref h' img1 of
                  Inl e \<Rightarrow> (Inl e, h')
                | Inr m1 \<Rightarrow>
                    (case cv2_rectangle L m1 (bb0, bb1) (bb2, bb3) (255, 0, 0) 2 of
                       Inl e \<Rightarrow> (Inl e, h')
                     | Inr m1' \<Rightarrow> (Inr tokens', h'[img1 := m1'])))))"

definition display_tesseract_mode ::
  "lib \<Rightarrow> nat \<Rightarrow> RIL \<Rightarrow> (string \<times> PSM) \<times> nat \<Rightarrow> (nat \<times> string \<times> string list \<times> nat) list \<Rightarrow>
   store \<Rightarrow> ((nat \<times> string \<times> string list \<times> nat) list) run" where
  "display_tesseract_mode L img level mode_ax shown h0 =
     (case mode_ax of ((name, tesseract), ax) \<Rightarrow>
        (case deref h0 img of
           Inl e \<Rightarrow> (Inl e, h0)
         | Inr m \<Rightarrow>
             (case tesseract_ocr L tesseract m of
                Inl e \<Rightarrow> (Inl e, h0)
              | Inr results \<Rightarrow>
                  (case ndarray_copy h0 img of
                     (Inl e, h1) \<Rightarrow> (Inl e, h1)
                   | (Inr img1, h1) \<Rightarrow>
                       (case for_loop (draw_tesseract_node L level img1)
                               (tess_iterate_level L (fst results) (snd results) level) [] h1 of
                          (Inl e, h2) \<Rightarrow> (Inl e, h2)
                        | (Inr tokens, h2) \<Rightarrow> (Inr (shown @ [(ax, name, tokens, img1)]), h2))))))"

definition display_tesseract_results ::
  "lib \<Rightarrow> nat \<Rightarrow> RIL \<Rightarrow> store \<Rightarrow> ((nat \<times> string \<times> string list \<times> nat) list) run" where
  "display_tesseract_results L img level h =
     (let n = length tesseract_modes; axs = [0..<n] in
      for_loop (display_tesseract_mode L img level) (zip tesseract_modes axs) [] h)"

subsection \<open>A concrete library and concrete inputs\<close>

text \<open>
  A library with fixed answers, on which the notebook's functions can be run. Storage
  holds three objects, an image, a text file and an empty object; the local disk holds
  one image. As OpenCV does, the local reader answers None for a path it cannot read,
  and the buffer decoder raises on an empty buffer and answers None for other bytes
  that are not an image. As PIL does, \<open>Image_fromarray\<close> takes arrays of one to four
  8-bit channels and raises TypeError on more. Drawing paints the whole array blue (in
  BGR order), so that a drawn-on array differs from its original.
\<close>

definition sample_image :: mat where
  "sample_image = [[[0, 0, 255], [255, 255, 255]]]"

definition sample_png :: bytes where
  "sample_png = [0x89, 0x50, 0x4E, 0x47]"

definition sample_break :: "BreakType \<Rightarrow> TextProperty" where
  "sample_break b = \<lparr>detected_break = Some \<lparr>break_type = b, is_prefix = False\<rparr>\<rparr>"

definition sample_box :: BoundingPoly where
  "sample_box = \<lparr>vertices = [\<lparr>x = 0, y = 0\<rparr>, \<lparr>x = 1, y = 0\<rparr>, \<lparr>x = 1, y = 1\<rparr>, \<lparr>x = 0, y = 1\<rparr>]\<rparr>"

definition sample_symbol :: "string \<Rightarrow> Symbol" where
  "sample_symbol s = \<lparr>symbol_text = s, property = \<lparr>detected_break = None\<rparr>\<rparr>"

definition sample_word1 :: Word where
  "sample_word1 =
     \<lparr>symbols = [sample_symbol ''H'', \<lparr>symbol_text = ''i'', property = sample_break SPACE\<rparr>],
      word_bounding_box = sample_box\<rparr>"

definition sample_word2 :: Word where
  "sample_word2 =
     \<lparr>symbols = [sample_symbol ''y'', \<lparr>symbol_text = ''o'', property = sample_break SPACE\<rparr>],
      word_bounding_box = sample_box\<rparr>"

definition sample_word3 :: Word where
  "sample_word3 = \<lparr>symbols = [sample_symbol ''o'', sample_symbol ''k''], word_bounding_box = sample_box\<rparr>"

definition sample_word4 :: Word where
  "sample_word4 = \<lparr>symbols = [sample_symbol ''g'', sample_symbol ''o''], word_bounding_box = sample_box\<rparr>"

definition sample_block1 :: Block where
  "sample_block1 =
     \<lparr>paragraphs =
        [\<lparr>words = [sample_word1, sample_word2], paragraph_bounding_box = sample_box\<rparr>,
         \<lparr>words = [sample_word3], paragraph_bounding_box = sample_box\<rparr>],
      block_bounding_box = sample_box\<rparr>"

definition sample_block2 :: Block where
  "sample_block2 =
     \<lparr>paragraphs = [\<lparr>words = [sample_word4], paragraph_bounding_box = sample_box\<rparr>],
      block_bounding_box = sample_box\<rparr>"

definition sample_page :: Page where
  "sample_page = \<lparr>blocks = [sample_block1, sample_block2]\<rparr>"

definition sample_response :: AnnotateImageResponse where
  "sample_response = \<lparr>full_text_annotation = \<lparr>pages = [sample_page]\<rparr>\<rparr>"

definition paint :: "mat \<Rightarrow> mat" where
  "paint m = map (map (\<lambda>px. [255, 0, 0])) m"

definition demo_lib :: lib where
  "demo_lib =
     \<lparr>gcs_open = (\<lambda>path mode.
        if path = ''gs://bucket/receipt.png'' \<or> path = ''gs://bucket/notes.txt''
           \<or> path = ''gs://bucket/empty.png''
        then Inr (GCSFile path) else Inl FileNotFoundError),
      gcs_file_read = (\<lambda>f.
        if f = GCSFile ''gs://bucket/receipt.png'' then Inr sample_png
        else if f = GCSFile ''gs://bucket/empty.png'' then Inr []
        else Inr [0x68, 0x69]),
      cv2_imdecode = (\<lambda>buf flags.
        if buf = [] then Inl Cv2Error
        else Inr (if buf = sample_png then Some sample_image else None)),
      cv2_imread = (\<lambda>path flags. Inr (if path = ''receipt.png'' then Some sample_image else None)),
      gray_of_bgr = (\<lambda>b g r. g),
      otsu_threshold = (\<lambda>m. 127),
      triangle_threshold = (\<lambda>m. 127),
      Image_fromarray = (\<lambda>m.
        if channels_are 1 m \<or> channels_are 2 m \<or> channels_are 3 m \<or> channels_are 4 m
        then Inr (PilImage m) else Inl TypeError),
      Image_save = (\<lambda>im fmt. if fmt = ''PNG'' then Inr sample_png else Inl (LibError ''KeyError'')),
      text_detection = (\<lambda>image ctx. Inr sample_response),
      document_text_detection = (\<lambda>image ctx. Inr sample_response),
      tess_SetImage = (\<lambda>psm im. Inr ()),
      tess_Recognize = (\<lambda>psm im. Inr ()),
      tess_iterate_level = (\<lambda>psm im level.
        [\<lparr>GetUTF8Text = Inr ''Hi'', BoundingBox = Some (0, 0, 1, 1)\<rparr>]),
      cv2_rectangle = (\<lambda>m p q colour thickness. Inr (paint m)),
      cv2_polylines = (\<lambda>m pts closed colour thickness. Inr (paint m))\<rparr>"

text \<open>Variants of the library in which one operation raises.\<close>

definition read_fails_lib :: lib where
  "read_fails_lib = demo_lib\<lparr>gcs_file_read := \<lambda>f. Inl (LibError ''OSError'')\<rparr>"

definition decoder_raises_lib :: lib where
  "decoder_raises_lib =
     demo_lib\<lparr>cv2_imdecode := \<lambda>buf flags. Inl Cv2Error, cv2_imread := \<lambda>path flags. Inl Cv2Error\<rparr>"

definition save_fails_lib :: lib where
  "save_fails_lib = demo_lib\<lparr>Image_save := \<lambda>im fmt. Inl (LibError ''OSError'')\<rparr>"

definition text_endpoint_down_lib :: lib where
  "text_endpoint_down_lib =
     demo_lib\<lparr>text_detection := \<lambda>image ctx. Inl (LibError ''ServiceUnavailable'')\<rparr>"

definition document_endpoint_down_lib :: lib where
  "document_endpoint_down_lib =
     demo_lib\<lparr>document_text_detection := \<lambda>image ctx. Inl (LibError ''ServiceUnavailable'')\<rparr>"

text \<open>
  A variant in which the engine finds no text: the annotation of the response is empty,
  it has no page.
\<close>

definition no_text_lib :: lib where
  "no_text_lib =
     demo_lib\<lparr>text_detection := \<lambda>image ctx. Inr \<lparr>full_text_annotation = \<lparr>pages = []\<rparr>\<rparr>,
              document_text_detection := \<lambda>image ctx. Inr \<lparr>full_text_annotation = \<lparr>pages = []\<rparr>\<rparr>\<rparr>"

section \<open>Properties\<close>

lemmas lib_eval = demo_lib_def read_fails_lib_def decoder_raises_lib_def save_fails_lib_def
  text_endpoint_down_lib_def document_endpoint_down_lib_def no_text_lib_def startswith_def
  channels_are_def
  sample_image_def sample_png_def sample_response_def np_asarray_uint8_def

subsection \<open>Text reconstruction\<close>

lemma join_empty_sep: "join [] xs = concat xs"
  by (induction xs rule: induct_list012) simp_all

lemma map_concat_map:
  "map f (concat (map g ps)) = concat (map (\<lambda>p. map f (g p)) ps)"
  by (induction ps) simp_all

lemma concat_map_concat:
  "concat (map g (concat (map f bs))) = concat (map (\<lambda>b. concat (map g (f b))) bs)"
  by (induction bs) simp_all

lemma get_symbol_text_no_break:
  "detected_break (property s) = None \<Longrightarrow> get_symbol_text s = symbol_text s"
  by (simp add: get_symbol_text_def HasField_detected_break_def)

lemma get_symbol_text_any_break:
  "detected_break (property s) = Some d \<Longrightarrow> get_symbol_text s = symbol_text s @ '' ''"
  by (simp add: get_symbol_text_def HasField_detected_break_def get_detected_break_def)

text \<open>
  C1. The reconstructed text of a symbol is meant to be its own text followed by a
  newline when its detected break is a line break, by one space when it is a simple
  space, and by nothing when no break is set. The last two hold (the two lemmas above).
  The first does not: the comparison in \<open>get_symbol_text\<close> is between the break
  message and an enum member, so it is never true, and a symbol \<open>a\<close> with a line break
  is rendered as \<open>a\<close> followed by a space, not by a newline.
\<close>

theorem get_symbol_text_line_break_appends_space:
  "get_symbol_text
     \<lparr>symbol_text = ''a'',
      property = \<lparr>detected_break = Some \<lparr>break_type = LINE_BREAK, is_prefix = False\<rparr>\<rparr>\<rparr>
   = ''a '' \<and>
   get_symbol_text
     \<lparr>symbol_text = ''a'',
      property = \<lparr>detected_break = Some \<lparr>break_type = LINE_BREAK, is_prefix = False\<rparr>\<rparr>\<rparr>
   \<noteq> ''a'' @ [CHR 0x0A]"
  by (simp add: get_symbol_text_def HasField_detected_break_def get_detected_break_def)

lemma get_word_text_concat:
  "get_word_text w = concat (map get_symbol_text (symbols w))"
  by (simp add: get_word_text_def join_empty_sep)

lemma get_paragraph_text_concat:
  "get_paragraph_text p = concat (map get_word_text (words p))"
  by (simp add: get_paragraph_text_def join_empty_sep)

lemma get_block_text_concat:
  "get_block_text b = concat (map get_paragraph_text (paragraphs b))"
  by (simp add: get_block_text_def join_empty_sep)

lemma get_paragraph_text_symbols:
  "get_paragraph_text p = concat (map get_symbol_text (concat (map symbols (words p))))"
proof -
  have "get_word_text = (\<lambda>w. concat (map get_symbol_text (symbols w)))"
    by (rule ext) (rule get_word_text_concat)
  then have "get_paragraph_text p =
      concat (map (\<lambda>w. concat (map get_symbol_text (symbols w))) (words p))"
    by (simp only: get_paragraph_text_concat)
  then show ?thesis by (simp only: concat_map_concat)
qed

text \<open>
  C2. The reconstructed text of a parent is the concatenation, in the original order of
  the children, of the reconstructed texts of its children: a block over its paragraphs,
  a paragraph over its words, a word over its symbols. The assembly may also skip
  levels: the text of a paragraph, and of a block, is the concatenation of the texts of
  all the symbols below it, in order.
\<close>

theorem parent_text_is_concat_of_children:
  "get_block_text b = concat (map get_paragraph_text (paragraphs b)) \<and>
   get_paragraph_text p = concat (map get_word_text (words p)) \<and>
   get_word_text w = concat (map get_symbol_text (symbols w)) \<and>
   get_paragraph_text p = concat (map get_symbol_text (concat (map symbols (words p)))) \<and>
   get_block_text b =
     concat (map get_symbol_text (concat (map symbols (concat (map words (paragraphs b))))))"
proof -
  have "get_paragraph_text =
      (\<lambda>p. concat (map get_symbol_text (concat (map symbols (words p)))))"
    by (rule ext) (rule get_paragraph_text_symbols)
  then have "get_block_text b =
      concat (map (\<lambda>p. concat (map get_symbol_text (concat (map symbols (words p)))))
        (paragraphs b))"
    by (simp only: get_block_text_concat)
  also have "\<dots> =
      concat (map get_symbol_text (concat (map symbols (concat (map words (paragraphs b))))))"
    by (simp only: concat_map_concat)
  finally show ?thesis
    using get_block_text_concat [of b] get_paragraph_text_concat [of p] get_word_text_concat [of w]
      get_paragraph_text_symbols [of p]
    by simp
qed


subsection \<open>Runs: calls and exceptions\<close>

lemma act_simps:
  "and_then (t, Inl e) k = (t, Inl e)"
  "and_then (t, Inr v) k = (t @ fst (k v), snd (k v))"
  "invoke c r = ([c], r)"
  "ret v = ([], Inr v)"
  "on_exit (t, r) c = (t @ [c], r)"
  "first_item [] = ([], Inl IndexError)"
  "first_item (v # vs) = ([], Inr v)"
  by (simp_all add: and_then_def invoke_def ret_def on_exit_def first_item_def)

lemma startswith_iff: "startswith s p \<longleftrightarrow> (\<exists>rest. s = p @ rest)"
  unfolding startswith_def
  by (metis append_eq_conv_conj append_take_drop_id)

subsection \<open>The image loader\<close>

lemma imread_wrapper_local:
  "\<not> startswith uri ''gs://'' \<Longrightarrow>
   imread_wrapper L uri = ([ImRead uri IMREAD_COLOR], cv2_imread L uri IMREAD_COLOR)"
  by (simp add: imread_wrapper_def act_simps)

lemma imread_wrapper_open_raises:
  "startswith uri ''gs://'' \<Longrightarrow> gcs_open L uri ''rb'' = Inl e \<Longrightarrow>
   imread_wrapper L uri = ([GcsOpen uri ''rb''], Inl e)"
  by (simp add: imread_wrapper_def act_simps)

lemma imread_wrapper_read_raises:
  "startswith uri ''gs://'' \<Longrightarrow> gcs_open L uri ''rb'' = Inr f \<Longrightarrow> gcs_file_read L f = Inl e \<Longrightarrow>
   imread_wrapper L uri = ([GcsOpen uri ''rb'', GcsRead f, GcsClose f], Inl e)"
  by (simp add: imread_wrapper_def act_simps)

lemma imread_wrapper_decodes:
  "startswith uri ''gs://'' \<Longrightarrow> gcs_open L uri ''rb'' = Inr f \<Longrightarrow> gcs_file_read L f = Inr data \<Longrightarrow>
   imread_wrapper L uri =
     ([GcsOpen uri ''rb'', GcsRead f, ImDecode data IMREAD_COLOR, GcsClose f],
      cv2_imdecode L data IMREAD_COLOR)"
  by (cases "cv2_imdecode L data IMREAD_COLOR")
     (simp_all add: imread_wrapper_def act_simps np_asarray_uint8_def)



lemma imread_wrapper_gs_trace:
  "startswith uri ''gs://'' \<Longrightarrow> \<exists>t. fst (imread_wrapper L uri) = GcsOpen uri ''rb'' # t"
  by (cases "gcs_open L uri ''rb''") (simp_all add: imread_wrapper_def act_simps)

text \<open>
  C3, as stated, fails: the loader does not return an image for every locator. For a
  local path that does not exist the local reader answers None, and for a stored object
  that is not an image the decoder answers None; the loader returns that None.
\<close>

theorem imread_wrapper_result_not_always_image:
  "imread_wrapper demo_lib ''no_such_file.jpg'' =
     ([ImRead ''no_such_file.jpg'' IMREAD_COLOR], Inr None) \<and>
   imread_wrapper demo_lib ''gs://bucket/notes.txt'' =
     ([GcsOpen ''gs://bucket/notes.txt'' ''rb'', GcsRead (GCSFile ''gs://bucket/notes.txt''),
       ImDecode [0x68, 0x69] IMREAD_COLOR, GcsClose (GCSFile ''gs://bucket/notes.txt'')],
      Inr None)"
  by (simp add: imread_wrapper_def and_then_def invoke_def ret_def on_exit_def lib_eval)

text \<open>
  C3, amended. For every locator the loader gets its result by fetching through the
  storage client and then decoding, when the locator denotes cloud object storage, and
  by decoding directly from the local filesystem otherwise, in colour in both cases.
  For a cloud locator: if the open raises, that is the only call and the loader raises
  the same; if the read raises, the object is closed and the loader raises the same; if
  both return, the calls are open, read, colour decoding of the bytes read, close, and
  the result is the decoder's. For any other locator the only call is the colour read
  of the file at that path and the result is that call's. So the loader returns a
  decoded image whenever the decoder produces one, and what the decoder answers
  otherwise.
\<close>

theorem imread_wrapper_fetches_then_decodes:
  "(startswith uri ''gs://'' \<longrightarrow> gcs_open L uri ''rb'' = Inl e \<longrightarrow>
      imread_wrapper L uri = ([GcsOpen uri ''rb''], Inl e)) \<and>
   (startswith uri ''gs://'' \<longrightarrow> gcs_open L uri ''rb'' = Inr f \<longrightarrow> gcs_file_read L f = Inl e \<longrightarrow>
      imread_wrapper L uri = ([GcsOpen uri ''rb'', GcsRead f, GcsClose f], Inl e)) \<and>
   (startswith uri ''gs://'' \<longrightarrow> gcs_open L uri ''rb'' = Inr f \<longrightarrow> gcs_file_read L f = Inr data \<longrightarrow>
      imread_wrapper L uri =
        ([GcsOpen uri ''rb'', GcsRead f, ImDecode data IMREAD_COLOR, GcsClose f],
         cv2_imdecode L data IMREAD_COLOR)) \<and>
   (startswith uri ''gs://'' \<longrightarrow> gcs_open L uri ''rb'' = Inr f \<longrightarrow> gcs_file_read L f = Inr data \<longrightarrow>
    cv2_imdecode L data IMREAD_COLOR = Inr (Some decoded) \<longrightarrow>
      snd (imread_wrapper L uri) = Inr (Some decoded)) \<and>
   (\<not> startswith uri ''gs://'' \<longrightarrow>
      imread_wrapper L uri = ([ImRead uri IMREAD_COLOR], cv2_imread L uri IMREAD_COLOR)) \<and>
   (\<not> startswith uri ''gs://'' \<longrightarrow> cv2_imread L uri IMREAD_COLOR = Inr (Some decoded) \<longrightarrow>
      snd (imread_wrapper L uri) = Inr (Some decoded))"
  by (simp add: imread_wrapper_open_raises imread_wrapper_read_raises imread_wrapper_decodes
      imread_wrapper_local)

theorem imread_wrapper_fetches_then_decodes_witness:
  "imread_wrapper demo_lib ''gs://bucket/missing.png'' =
     ([GcsOpen ''gs://bucket/missing.png'' ''rb''], Inl FileNotFoundError) \<and>
   imread_wrapper read_fails_lib ''gs://bucket/receipt.png'' =
     ([GcsOpen ''gs://bucket/receipt.png'' ''rb'', GcsRead (GCSFile ''gs://bucket/receipt.png''),
       GcsClose (GCSFile ''gs://bucket/receipt.png'')], Inl (LibError ''OSError'')) \<and>
   imread_wrapper demo_lib ''gs://bucket/receipt.png'' =
     ([GcsOpen ''gs://bucket/receipt.png'' ''rb'', GcsRead (GCSFile ''gs://bucket/receipt.png''),
       ImDecode sample_png IMREAD_COLOR, GcsClose (GCSFile ''gs://bucket/receipt.png'')],
      Inr (Some sample_image)) \<and>
   imread_wrapper demo_lib ''receipt.png'' =
     ([ImRead ''receipt.png'' IMREAD_COLOR], Inr (Some sample_image)) \<and>
   imread_wrapper demo_lib ''no_such_file.jpg'' =
     ([ImRead ''no_such_file.jpg'' IMREAD_COLOR], Inr None)"
  using imread_wrapper_fetches_then_decodes
          [of "''gs://bucket/missing.png''" demo_lib FileNotFoundError]
        imread_wrapper_fetches_then_decodes
          [of "''gs://bucket/receipt.png''" read_fails_lib "LibError ''OSError''"
              "GCSFile ''gs://bucket/receipt.png''"]
        imread_wrapper_fetches_then_decodes
          [of "''gs://bucket/receipt.png''" demo_lib _ "GCSFile ''gs://bucket/receipt.png''"
              sample_png sample_image]
        imread_wrapper_fetches_then_decodes [of "''receipt.png''" demo_lib _ _ _ sample_image]
        imread_wrapper_fetches_then_decodes [of "''no_such_file.jpg''" demo_lib]
  by (simp add: lib_eval)

text \<open>
  C4, as stated, fails: for a local path that does not exist, and for stored bytes that
  are not an image, the decoder answers None and the loader returns that None; no error
  is signalled.
\<close>

theorem imread_wrapper_returns_None_unsignalled:
  "cv2_imread demo_lib ''missing.png'' IMREAD_COLOR = Inr None \<and>
   imread_wrapper demo_lib ''missing.png'' = ([ImRead ''missing.png'' IMREAD_COLOR], Inr None) \<and>
   gcs_file_read demo_lib (GCSFile ''gs://bucket/notes.txt'') = Inr [0x68, 0x69] \<and>
   cv2_imdecode demo_lib [0x68, 0x69] IMREAD_COLOR = Inr None \<and>
   imread_wrapper demo_lib ''gs://bucket/notes.txt'' =
     ([GcsOpen ''gs://bucket/notes.txt'' ''rb'', GcsRead (GCSFile ''gs://bucket/notes.txt''),
       ImDecode [0x68, 0x69] IMREAD_COLOR, GcsClose (GCSFile ''gs://bucket/notes.txt'')],
      Inr None)"
  by (simp add: imread_wrapper_def and_then_def invoke_def ret_def on_exit_def lib_eval)

text \<open>
  C4, amended. The loader signals an error when, and only when, a library call it makes
  raises one, and the error is that call's: for a cloud locator the storage client's
  open or read, or the decoder; for any other locator the local reader. It makes no
  check of its own on what the decoder returns: whenever the decoder answers None, the
  loader returns None and signals nothing.
\<close>

theorem imread_wrapper_signals_library_errors_only:
  "(startswith uri ''gs://'' \<longrightarrow> gcs_open L uri ''rb'' = Inl e \<longrightarrow>
      snd (imread_wrapper L uri) = Inl e) \<and>
   (startswith uri ''gs://'' \<longrightarrow> gcs_open L uri ''rb'' = Inr f \<longrightarrow> gcs_file_read L f = Inl e \<longrightarrow>
      snd (imread_wrapper L uri) = Inl e) \<and>
   (startswith uri ''gs://'' \<longrightarrow> gcs_open L uri ''rb'' = Inr f \<longrightarrow> gcs_file_read L f = Inr data \<longrightarrow>
      snd (imread_wrapper L uri) = cv2_imdecode L data IMREAD_COLOR) \<and>
   (\<not> startswith uri ''gs://'' \<longrightarrow>
      snd (imread_wrapper L uri) = cv2_imread L uri IMREAD_COLOR) \<and>
   (startswith uri ''gs://'' \<longrightarrow> gcs_open L uri ''rb'' = Inr f \<longrightarrow> gcs_file_read L f = Inr data \<longrightarrow>
    cv2_imdecode L data IMREAD_COLOR = Inr None \<longrightarrow>
      snd (imread_wrapper L uri) = Inr None) \<and>
   (\<not> startswith uri ''gs://'' \<longrightarrow> cv2_imread L uri IMREAD_COLOR = Inr None \<longrightarrow>
      snd (imread_wrapper L uri) = Inr None) \<and>
   (snd (imread_wrapper L uri) = Inl e \<longrightarrow>
      (startswith uri ''gs://'' \<and>
         (gcs_open L uri ''rb'' = Inl e \<or>
          (\<exists>g. gcs_open L uri ''rb'' = Inr g \<and>
             (gcs_file_read L g = Inl e \<or>
              (\<exists>d. gcs_file_read L g = Inr d \<and> cv2_imdecode L d IMREAD_COLOR = Inl e))))) \<or>
      (\<not> startswith uri ''gs://'' \<and> cv2_imread L uri IMREAD_COLOR = Inl e))"
proof -
  have only: "(startswith uri ''gs://'' \<and>
         (gcs_open L uri ''rb'' = Inl e \<or>
          (\<exists>g. gcs_open L uri ''rb'' = Inr g \<and>
             (gcs_file_read L g = Inl e \<or>
              (\<exists>d. gcs_file_read L g = Inr d \<and> cv2_imdecode L d IMREAD_COLOR = Inl e))))) \<or>
      (\<not> startswith uri ''gs://'' \<and> cv2_imread L uri IMREAD_COLOR = Inl e)"
    if raised: "snd (imread_wrapper L uri) = Inl e"
  proof (cases "startswith uri ''gs://''")
    case False
    with raised show ?thesis by (simp add: imread_wrapper_local)
  next
    case True
    show ?thesis
    proof (cases "gcs_open L uri ''rb''")
      case (Inl e')
      with True raised show ?thesis by (simp add: imread_wrapper_open_raises)
    next
      case (Inr g)
      show ?thesis
      proof (cases "gcs_file_read L g")
        case (Inl e')
        with True Inr raised show ?thesis by (simp add: imread_wrapper_read_raises)
      next
        case d: (Inr d)
        with True Inr raised show ?thesis by (simp add: imread_wrapper_decodes)
      qed
    qed
  qed
  then show ?thesis
    by (simp add: imread_wrapper_open_raises imread_wrapper_read_raises imread_wrapper_decodes
        imread_wrapper_local)
qed

theorem imread_wrapper_signals_library_errors_only_witness:
  "snd (imread_wrapper demo_lib ''gs://bucket/missing.png'') = Inl FileNotFoundError \<and>
   gcs_open demo_lib ''gs://bucket/missing.png'' ''rb'' = Inl FileNotFoundError \<and>
   snd (imread_wrapper read_fails_lib ''gs://bucket/receipt.png'') = Inl (LibError ''OSError'') \<and>
   snd (imread_wrapper demo_lib ''gs://bucket/empty.png'') = Inl Cv2Error \<and>
   snd (imread_wrapper demo_lib ''gs://bucket/notes.txt'') = Inr None \<and>
   snd (imread_wrapper demo_lib ''missing.png'') = Inr None \<and>
   snd (imread_wrapper decoder_raises_lib ''receipt.png'') = Inl Cv2Error"
  using imread_wrapper_signals_library_errors_only
          [of "''gs://bucket/missing.png''" demo_lib FileNotFoundError]
        imread_wrapper_signals_library_errors_only
          [of "''gs://bucket/receipt.png''" read_fails_lib "LibError ''OSError''"
              "GCSFile ''gs://bucket/receipt.png''"]
        imread_wrapper_signals_library_errors_only
          [of "''gs://bucket/empty.png''" demo_lib Cv2Error "GCSFile ''gs://bucket/empty.png''" "[]"]
        imread_wrapper_signals_library_errors_only
          [of "''gs://bucket/notes.txt''" demo_lib Cv2Error "GCSFile ''gs://bucket/notes.txt''"
              "[0x68, 0x69]"]
        imread_wrapper_signals_library_errors_only [of "''missing.png''" demo_lib Cv2Error]
        imread_wrapper_signals_library_errors_only [of "''receipt.png''" decoder_raises_lib Cv2Error]
  by (simp add: lib_eval)

text \<open>
  C9. The loader goes to cloud object storage exactly for the locators that begin with
  the five characters \<open>gs://\<close>, compared as they are; every other locator, whatever its
  scheme or its case, is given unchanged to the local reader, in one call.
\<close>

theorem imread_wrapper_cloud_iff_gs_prefix:
  "((\<exists>rest. uri = ''gs://'' @ rest) \<longleftrightarrow>
      (\<exists>t. fst (imread_wrapper L uri) = GcsOpen uri ''rb'' # t)) \<and>
   ((\<exists>rest. uri = ''gs://'' @ rest) \<or>
      imread_wrapper L uri = ([ImRead uri IMREAD_COLOR], cv2_imread L uri IMREAD_COLOR))"
proof (cases "startswith uri ''gs://''")
  case True
  then show ?thesis
    using imread_wrapper_gs_trace [of uri L] by (simp add: startswith_iff)
next
  case False
  then show ?thesis
    using imread_wrapper_local [of uri L] by (simp add: startswith_iff)
qed

theorem imread_wrapper_cloud_iff_gs_prefix_witness:
  "imread_wrapper demo_lib ''GS://bucket/receipt.png'' =
     ([ImRead ''GS://bucket/receipt.png'' IMREAD_COLOR], Inr None) \<and>
   imread_wrapper demo_lib ''gs:/bucket/receipt.png'' =
     ([ImRead ''gs:/bucket/receipt.png'' IMREAD_COLOR], Inr None) \<and>
   imread_wrapper demo_lib '' gs://bucket/receipt.png'' =
     ([ImRead '' gs://bucket/receipt.png'' IMREAD_COLOR], Inr None) \<and>
   imread_wrapper demo_lib ''receipt.png'' =
     ([ImRead ''receipt.png'' IMREAD_COLOR], Inr (Some sample_image)) \<and>
   (\<exists>t. fst (imread_wrapper demo_lib ''gs://bucket/receipt.png'') =
      GcsOpen ''gs://bucket/receipt.png'' ''rb'' # t)"
  using imread_wrapper_cloud_iff_gs_prefix [of "''GS://bucket/receipt.png''" demo_lib]
        imread_wrapper_cloud_iff_gs_prefix [of "''gs:/bucket/receipt.png''" demo_lib]
        imread_wrapper_cloud_iff_gs_prefix [of "'' gs://bucket/receipt.png''" demo_lib]
        imread_wrapper_cloud_iff_gs_prefix [of "''receipt.png''" demo_lib]
        imread_wrapper_cloud_iff_gs_prefix [of "''gs://bucket/receipt.png''" demo_lib]
  by (simp add: demo_lib_def)


subsection \<open>Cloud OCR invocation\<close>




lemma google_text_detection_returns:
  "Image_fromarray L img = Inr img_pil \<Longrightarrow> Image_save L img_pil ''PNG'' = Inr byte_image \<Longrightarrow>
   text_detection L \<lparr>content = byte_image\<rparr> \<lparr>language_hints = [''en'']\<rparr> = Inr response \<Longrightarrow>
   google_text_detection L img =
     ([FromArray img, Save img_pil ''PNG'',
       TextDetection \<lparr>content = byte_image\<rparr> \<lparr>language_hints = [''en'']\<rparr>],
      snd (first_item (pages (full_text_annotation response))))"
  by (cases "pages (full_text_annotation response)")
     (simp_all add: google_text_detection_def act_simps)




lemma google_document_text_detection_returns:
  "Image_fromarray L img = Inr img_pil \<Longrightarrow> Image_save L img_pil ''PNG'' = Inr byte_image \<Longrightarrow>
   document_text_detection L \<lparr>content = byte_image\<rparr> \<lparr>language_hints = [''en'']\<rparr> = Inr response \<Longrightarrow>
   google_document_text_detection L img =
     ([FromArray img, Save img_pil ''PNG'',
       DocumentTextDetection \<lparr>content = byte_image\<rparr> \<lparr>language_hints = [''en'']\<rparr>],
      snd (first_item (pages (full_text_annotation response))))"
  by (cases "pages (full_text_annotation response)")
     (simp_all add: google_document_text_detection_def act_simps)

text \<open>
  A response without pages (an image in which the engine finds no text) has no first
  page: indexing it raises.
\<close>

lemma google_text_detection_no_pages:
  "Image_fromarray L img = Inr img_pil \<Longrightarrow> Image_save L img_pil ''PNG'' = Inr byte_image \<Longrightarrow>
   text_detection L \<lparr>content = byte_image\<rparr> \<lparr>language_hints = [''en'']\<rparr> = Inr response \<Longrightarrow>
   pages (full_text_annotation response) = [] \<Longrightarrow>
   snd (google_text_detection L img) = Inl IndexError"
  by (simp add: google_text_detection_returns act_simps)



text \<open>
  C7, as stated, fails: for an image in which the engine finds no text the response has
  no page, and both functions raise IndexError after the three library calls have
  returned; nothing is returned.
\<close>

theorem google_detection_raises_without_pages:
  "google_text_detection no_text_lib sample_image =
     ([FromArray sample_image, Save (PilImage sample_image) ''PNG'',
       TextDetection \<lparr>content = sample_png\<rparr> \<lparr>language_hints = [''en'']\<rparr>], Inl IndexError) \<and>
   google_document_text_detection no_text_lib sample_image =
     ([FromArray sample_image, Save (PilImage sample_image) ''PNG'',
       DocumentTextDetection \<lparr>content = sample_png\<rparr> \<lparr>language_hints = [''en'']\<rparr>],
      Inl IndexError)"
  by (simp add: google_text_detection_def google_document_text_detection_def act_simps lib_eval)

text \<open>
  C7, amended. Each cloud OCR function turns the image into a PNG byte buffer and
  submits the buffer to its own endpoint (and to no other) together with the language
  hint \<open>en\<close>; these are the calls it makes, in this order, when they return. Its result
  is then the first page of the response when the response has a page, and the
  exception IndexError when it has none.
\<close>

theorem google_detection_returns_first_page:
  "(Image_fromarray L img = Inr img_pil \<longrightarrow> Image_save L img_pil ''PNG'' = Inr byte_image \<longrightarrow>
    text_detection L \<lparr>content = byte_image\<rparr> \<lparr>language_hints = [''en'']\<rparr> = Inr response \<longrightarrow>
      google_text_detection L img =
        ([FromArray img, Save img_pil ''PNG'',
          TextDetection \<lparr>content = byte_image\<rparr> \<lparr>language_hints = [''en'']\<rparr>],
         (case pages (full_text_annotation response) of
            [] \<Rightarrow> Inl IndexError
          | page # rest \<Rightarrow> Inr page))) \<and>
   (Image_fromarray L img = Inr img_pil \<longrightarrow> Image_save L img_pil ''PNG'' = Inr byte_image \<longrightarrow>
    document_text_detection L \<lparr>content = byte_image\<rparr> \<lparr>language_hints = [''en'']\<rparr> = Inr response \<longrightarrow>
      google_document_text_detection L img =
        ([FromArray img, Save img_pil ''PNG'',
          DocumentTextDetection \<lparr>content = byte_image\<rparr> \<lparr>language_hints = [''en'']\<rparr>],
         (case pages (full_text_annotation response) of
            [] \<Rightarrow> Inl IndexError
          | page # rest \<Rightarrow> Inr page)))"
  by (simp add: google_text_detection_returns google_document_text_detection_returns
      first_item_def split: list.split)

theorem google_detection_returns_first_page_witness:
  "google_text_detection demo_lib sample_image =
     ([FromArray sample_image, Save (PilImage sample_image) ''PNG'',
       TextDetection \<lparr>content = sample_png\<rparr> \<lparr>language_hints = [''en'']\<rparr>], Inr sample_page) \<and>
   google_document_text_detection demo_lib sample_image =
     ([FromArray sample_image, Save (PilImage sample_image) ''PNG'',
       DocumentTextDetection \<lparr>content = sample_png\<rparr> \<lparr>language_hints = [''en'']\<rparr>], Inr sample_page) \<and>
   snd (google_text_detection no_text_lib sample_image) = Inl IndexError \<and>
   snd (google_document_text_detection no_text_lib sample_image) = Inl IndexError"
  using google_detection_returns_first_page
          [of demo_lib sample_image "PilImage sample_image" sample_png sample_response]
        google_detection_returns_first_page
          [of no_text_lib sample_image "PilImage sample_image" sample_png
              "\<lparr>full_text_annotation = \<lparr>pages = []\<rparr>\<rparr>"]
  by (simp add: lib_eval)

subsection \<open>Failures of library calls\<close>






subsection \<open>Loops over the store\<close>

lemma for_loop_invariant:
  assumes step: "\<And>v acc h. I h \<Longrightarrow> I (snd (body v acc h))"
  shows "I h \<Longrightarrow> I (snd (for_loop body xs acc h))"
proof (induction xs arbitrary: acc h)
  case Nil
  then show ?case by simp
next
  case (Cons v vs)
  from step [OF Cons.prems, of v acc] have I': "I (snd (body v acc h))" .
  show ?case
  proof (cases "body v acc h")
    case (Pair r h')
    with I' have "I h'" by simp
    with Pair Cons.IH show ?thesis by (cases r) simp_all
  qed
qed

lemma for_loop_joint:
  assumes step: "\<And>v acc h acc' h'. J acc h \<Longrightarrow> body v acc h = (Inr acc', h') \<Longrightarrow> J acc' h'"
  shows "J acc h \<Longrightarrow> for_loop body xs acc h = (Inr acc', h') \<Longrightarrow> J acc' h'"
proof (induction xs arbitrary: acc h)
  case Nil
  then show ?case by simp
next
  case (Cons v vs)
  show ?case
  proof (cases "body v acc h")
    case (Pair r h1)
    show ?thesis
    proof (cases r)
      case (Inl e)
      with Pair Cons.prems show ?thesis by simp
    next
      case (Inr acc1)
      with Pair Cons.prems(1) have "J acc1 h1" by (auto intro: step)
      moreover from Pair Inr Cons.prems(2) have "for_loop body vs acc1 h1 = (Inr acc', h')" by simp
      ultimately show ?thesis by (rule Cons.IH)
    qed
  qed
qed

lemma for_loop_collects:
  assumes step: "\<And>v acc h acc' h'. body v acc h = (Inr acc', h') \<Longrightarrow> acc' = acc @ g v"
  shows "for_loop body xs acc h = (Inr acc', h') \<Longrightarrow> acc' = acc @ concat (map g xs)"
proof (induction xs arbitrary: acc h)
  case Nil
  then show ?case by simp
next
  case (Cons v vs)
  show ?case
  proof (cases "body v acc h")
    case (Pair r h1)
    show ?thesis
    proof (cases r)
      case (Inl e)
      with Pair Cons.prems show ?thesis by simp
    next
      case (Inr acc1)
      with Pair have "acc1 = acc @ g v" by (auto dest: step)
      moreover from Pair Inr Cons.prems have "for_loop body vs acc1 h1 = (Inr acc', h')" by simp
      then have "acc' = acc1 @ concat (map g vs)" by (rule Cons.IH)
      ultimately show ?thesis by simp
    qed
  qed
qed

lemma for_loop_returns:
  assumes step: "\<And>v acc h. I h \<Longrightarrow> \<exists>acc' h'. body v acc h = (Inr acc', h') \<and> I h'"
  shows "I h \<Longrightarrow> \<exists>acc' h'. for_loop body xs acc h = (Inr acc', h') \<and> I h'"
proof (induction xs arbitrary: acc h)
  case Nil
  then show ?case by simp
next
  case (Cons v vs)
  from step [OF Cons.prems, of v acc] obtain acc1 h1
    where b: "body v acc h = (Inr acc1, h1)" and "I h1" by blast
  from Cons.IH [OF \<open>I h1\<close>, of acc1] b show ?case by simp
qed

subsection \<open>Overlay of the cloud engine's results\<close>

lemma ndarray_copy_frame:
  "take (length h) (snd (ndarray_copy h r)) = h \<and> length h \<le> length (snd (ndarray_copy h r))"
  by (simp add: ndarray_copy_def deref_def)

lemma ndarray_copy_cases:
  "ndarray_copy h r = (if r < length h then (Inr (length h), h @ [h ! r])
                       else (Inl (LibError ''dangling reference''), h))"
  by (simp add: ndarray_copy_def deref_def)

lemma add_bounding_box_cases:
  "add_bounding_box L img bb h = (Inr u, h') \<Longrightarrow>
   img < length h \<and> (\<exists>m'. h' = h[img := m'])"
  by (auto simp: add_bounding_box_def deref_def split: if_splits sum.splits)

lemma add_bounding_box_store:
  "snd (add_bounding_box L img bb h) = h \<or> (\<exists>m'. snd (add_bounding_box L img bb h) = h[img := m'])"
  by (auto simp: add_bounding_box_def deref_def split: if_splits sum.splits)

lemma add_bounding_box_frame:
  assumes "n \<le> img" "n \<le> length h" "take n h = h0"
  shows "n \<le> length (snd (add_bounding_box L img bb h)) \<and> take n (snd (add_bounding_box L img bb h)) = h0"
  using add_bounding_box_store [of L img bb h] assms by auto

lemma annotate_store:
  "snd (let texts' = texts @ [t] in
        case add_bounding_box L img1 bb h' of
          (Inl e, h'') \<Rightarrow> (Inl e, h'')
        | (Inr u, h'') \<Rightarrow> (Inr texts', h'')) = snd (add_bounding_box L img1 bb h')"
  by (simp split: prod.splits sum.splits)

lemma annotate_result:
  "(let texts' = texts @ [t] in
    case add_bounding_box L img1 bb h' of
      (Inl e, h'') \<Rightarrow> (Inl e, h'')
    | (Inr u, h'') \<Rightarrow> (Inr texts', h'')) = (Inr acc', h2) \<Longrightarrow> acc' = texts @ [t]"
  by (simp split: prod.splits sum.splits)

lemma annotate_returns:
  assumes "\<And>m pts. \<exists>m'. cv2_polylines L m pts True (255, 0, 0) 2 = Inr m'" "img1 < length h'"
  shows "\<exists>acc' h2. (let texts' = texts @ [t] in
    case add_bounding_box L img1 bb h' of
      (Inl e, h'') \<Rightarrow> (Inl e, h'')
    | (Inr u, h'') \<Rightarrow> (Inr texts', h'')) = (Inr acc', h2) \<and> img1 < length h2"
proof -
  from assms(1) obtain m' where
    "cv2_polylines L (h' ! img1) [map (\<lambda>point. [x point, y point]) bb] True (255, 0, 0) 2 = Inr m'"
    by blast
  with assms(2) show ?thesis by (simp add: add_bounding_box_def deref_def)
qed

lemma finish_fst:
  "fst (case X of (Inl e, h2) \<Rightarrow> (Inl e, h2) | (Inr texts, h2) \<Rightarrow> (Inr (texts, img1), h2)) = Inr (ts, r)
   \<longleftrightarrow> (\<exists>h2. X = (Inr ts, h2)) \<and> r = img1"
  by (cases X) (auto split: sum.splits)

lemma finish_snd:
  "snd (case X of (Inl e, h2) \<Rightarrow> (Inl e, h2) | (Inr texts, h2) \<Rightarrow> (Inr (texts, img1), h2)) = snd X"
  by (cases X) (auto split: sum.splits)

lemma get_google_words_frame:
  "take (length h) (snd (get_google_words L page img h)) = h"
proof (cases "img < length h")
  case False
  then show ?thesis by (simp add: get_google_words_def ndarray_copy_cases)
next
  case True
  let ?I = "\<lambda>h'. length h \<le> length h' \<and> take (length h) h' = h"
  have inner: "?I h' \<Longrightarrow> ?I (snd (add_bounding_box L (length h) bb h'))" for h' bb
    using add_bounding_box_frame [of "length h" "length h" h' h L bb] by simp
  have "?I (snd (for_loop (\<lambda>block.
                  for_loop (\<lambda>para.
                    for_loop (\<lambda>word texts h'.
                      let texts' = texts @ [get_word_text word] in
                      case add_bounding_box L (length h) (vertices (word_bounding_box word)) h' of
                        (Inl e, h'') \<Rightarrow> (Inl e, h'')
                      | (Inr _, h'') \<Rightarrow> (Inr texts', h''))
                    (words para))
                  (paragraphs block))
                (blocks page) [] (h @ [h ! img])))"
    by (intro for_loop_invariant [where I = ?I]) (simp_all only: annotate_store inner, simp_all)
  with True show ?thesis
    by (simp add: get_google_words_def ndarray_copy_cases finish_snd)
qed

lemma get_google_paragraphs_frame:
  "take (length h) (snd (get_google_paragraphs L page img h)) = h"
proof (cases "img < length h")
  case False
  then show ?thesis by (simp add: get_google_paragraphs_def ndarray_copy_cases)
next
  case True
  let ?I = "\<lambda>h'. length h \<le> length h' \<and> take (length h) h' = h"
  have inner: "?I h' \<Longrightarrow> ?I (snd (add_bounding_box L (length h) bb h'))" for h' bb
    using add_bounding_box_frame [of "length h" "length h" h' h L bb] by simp
  have "?I (snd (for_loop (\<lambda>block.
                  for_loop (\<lambda>para texts h'.
                    let texts' = texts @ [get_paragraph_text para] in
                    case add_bounding_box L (length h) (vertices (paragraph_bounding_box para)) h' of
                      (Inl e, h'') \<Rightarrow> (Inl e, h'')
                    | (Inr _, h'') \<Rightarrow> (Inr texts', h''))
                  (paragraphs block))
                (blocks page) [] (h @ [h ! img])))"
    by (intro for_loop_invariant [where I = ?I]) (simp_all only: annotate_store inner, simp_all)
  with True show ?thesis
    by (simp add: get_google_paragraphs_def ndarray_copy_cases finish_snd)
qed

lemma get_google_blocks_frame:
  "take (length h) (snd (get_google_blocks L page img h)) = h"
proof (cases "img < length h")
  case False
  then show ?thesis by (simp add: get_google_blocks_def ndarray_copy_cases)
next
  case True
  let ?I = "\<lambda>h'. length h \<le> length h' \<and> take (length h) h' = h"
  have inner: "?I h' \<Longrightarrow> ?I (snd (add_bounding_box L (length h) bb h'))" for h' bb
    using add_bounding_box_frame [of "length h" "length h" h' h L bb] by simp
  have "?I (snd (for_loop (\<lambda>block texts h'.
                  let texts' = texts @ [get_block_text block] in
                  case add_bounding_box L (length h) (vertices (block_bounding_box block)) h' of
                    (Inl e, h'') \<Rightarrow> (Inl e, h'')
                  | (Inr _, h'') \<Rightarrow> (Inr texts', h''))
                (blocks page) [] (h @ [h ! img])))"
    by (intro for_loop_invariant [where I = ?I]) (simp_all only: annotate_store inner, simp_all)
  with True show ?thesis
    by (simp add: get_google_blocks_def ndarray_copy_cases finish_snd)
qed

lemma get_google_fresh:
  "fst (get_google_words L page img h) = Inr (ts, r) \<Longrightarrow> img < length h \<and> r = length h"
  "fst (get_google_paragraphs L page img h) = Inr (ts, r) \<Longrightarrow> img < length h \<and> r = length h"
  "fst (get_google_blocks L page img h) = Inr (ts, r) \<Longrightarrow> img < length h \<and> r = length h"
  by (cases "img < length h";
      simp add: get_google_words_def get_google_paragraphs_def get_google_blocks_def
        ndarray_copy_cases finish_fst)+

lemma get_google_blocks_texts:
  assumes "fst (get_google_blocks L page img h) = Inr (ts, r)"
  shows "ts = map get_block_text (blocks page)"
proof -
  from assms get_google_fresh(3) [OF assms] obtain h2 where
    "for_loop (\<lambda>block texts h'.
        let texts' = texts @ [get_block_text block] in
        case add_bounding_box L (length h) (vertices (block_bounding_box block)) h' of
          (Inl e, h'') \<Rightarrow> (Inl e, h'')
        | (Inr _, h'') \<Rightarrow> (Inr texts', h''))
      (blocks page) [] (h @ [h ! img]) = (Inr ts, h2)"
    by (auto simp: get_google_blocks_def ndarray_copy_cases finish_fst)
  then have "ts = [] @ concat (map (\<lambda>block. [get_block_text block]) (blocks page))"
    by (rule for_loop_collects [rotated]) (rule annotate_result)
  then show ?thesis by simp
qed

lemma get_google_paragraphs_texts:
  assumes "fst (get_google_paragraphs L page img h) = Inr (ts, r)"
  shows "ts = map get_paragraph_text (concat (map paragraphs (blocks page)))"
proof -
  from assms get_google_fresh(2) [OF assms] obtain h2 where
    "for_loop (\<lambda>block.
        for_loop (\<lambda>para texts h'.
          let texts' = texts @ [get_paragraph_text para] in
          case add_bounding_box L (length h) (vertices (paragraph_bounding_box para)) h' of
            (Inl e, h'') \<Rightarrow> (Inl e, h'')
          | (Inr _, h'') \<Rightarrow> (Inr texts', h''))
        (paragraphs block))
      (blocks page) [] (h @ [h ! img]) = (Inr ts, h2)"
    by (auto simp: get_google_paragraphs_def ndarray_copy_cases finish_fst)
  then have "ts = [] @ concat (map (\<lambda>block. concat (map (\<lambda>para. [get_paragraph_text para])
      (paragraphs block))) (blocks page))"
    by (rule for_loop_collects [rotated]) (erule for_loop_collects [rotated], rule annotate_result)
  then show ?thesis by (simp add: map_concat_map concat_map_concat)
qed

lemma get_google_words_texts:
  assumes "fst (get_google_words L page img h) = Inr (ts, r)"
  shows "ts = map get_word_text (concat (map words (concat (map paragraphs (blocks page)))))"
proof -
  from assms get_google_fresh(1) [OF assms] obtain h2 where
    "for_loop (\<lambda>block.
        for_loop (\<lambda>para.
          for_loop (\<lambda>word texts h'.
            let texts' = texts @ [get_word_text word] in
            case add_bounding_box L (length h) (vertices (word_bounding_box word)) h' of
              (Inl e, h'') \<Rightarrow> (Inl e, h'')
            | (Inr _, h'') \<Rightarrow> (Inr texts', h''))
          (words para))
        (paragraphs block))
      (blocks page) [] (h @ [h ! img]) = (Inr ts, h2)"
    by (auto simp: get_google_words_def ndarray_copy_cases finish_fst)
  then have "ts = [] @ concat (map (\<lambda>block. concat (map (\<lambda>para. concat (map (\<lambda>word.
      [get_word_text word]) (words para))) (paragraphs block))) (blocks page))"
    by (rule for_loop_collects [rotated])
       (erule for_loop_collects [rotated], erule for_loop_collects [rotated], rule annotate_result)
  moreover have "map get_word_text (concat (map words (concat (map paragraphs (blocks page))))) =
      concat (map (\<lambda>para. map get_word_text (words para)) (concat (map paragraphs (blocks page))))"
    by (rule map_concat_map)
  moreover have "\<dots> = concat (map (\<lambda>block. concat (map (\<lambda>para. map get_word_text (words para))
      (paragraphs block))) (blocks page))"
    by (rule concat_map_concat)
  ultimately show ?thesis by simp
qed

lemma finish_returns:
  "X = (Inr ts, h2) \<Longrightarrow>
   (case X of (Inl e, h2) \<Rightarrow> (Inl e, h2) | (Inr texts, h2) \<Rightarrow> (Inr (texts, img1), h2)) =
   (Inr (ts, img1), h2)"
  by simp

lemma get_google_words_returns:
  assumes total: "\<And>m pts. \<exists>m'. cv2_polylines L m pts True (255, 0, 0) 2 = Inr m'"
    and valid: "img < length h"
  shows "\<exists>ts h'. get_google_words L page img h = (Inr (ts, length h), h')"
proof -
  let ?I = "\<lambda>h'. length h < length h'"
  have "?I (h @ [h ! img])" by simp
  then have "\<exists>ts h2. for_loop (\<lambda>block.
        for_loop (\<lambda>para.
          for_loop (\<lambda>word texts h'.
            let texts' = texts @ [get_word_text word] in
            case add_bounding_box L (length h) (vertices (word_bounding_box word)) h' of
              (Inl e, h'') \<Rightarrow> (Inl e, h'')
            | (Inr _, h'') \<Rightarrow> (Inr texts', h''))
          (words para))
        (paragraphs block))
      (blocks page) [] (h @ [h ! img]) = (Inr ts, h2) \<and> ?I h2"
    by (intro for_loop_returns [where I = ?I] annotate_returns total)
  with valid show ?thesis
    by (auto simp: get_google_words_def ndarray_copy_cases)
qed


lemma get_google_paragraphs_returns:
  assumes total: "\<And>m pts. \<exists>m'. cv2_polylines L m pts True (255, 0, 0) 2 = Inr m'"
    and valid: "img < length h"
  shows "\<exists>ts h'. get_google_paragraphs L page img h = (Inr (ts, length h), h')"
proof -
  let ?I = "\<lambda>h'. length h < length h'"
  have "?I (h @ [h ! img])" by simp
  then have "\<exists>ts h2. for_loop (\<lambda>block.
        for_loop (\<lambda>para texts h'.
          let texts' = texts @ [get_paragraph_text para] in
          case add_bounding_box L (length h) (vertices (paragraph_bounding_box para)) h' of
            (Inl e, h'') \<Rightarrow> (Inl e, h'')
          | (Inr _, h'') \<Rightarrow> (Inr texts', h''))
        (paragraphs block))
      (blocks page) [] (h @ [h ! img]) = (Inr ts, h2) \<and> ?I h2"
    by (intro for_loop_returns [where I = ?I] annotate_returns total)
  with valid show ?thesis
    by (auto simp: get_google_paragraphs_def ndarray_copy_cases)
qed

lemma get_google_blocks_returns:
  assumes total: "\<And>m pts. \<exists>m'. cv2_polylines L m pts True (255, 0, 0) 2 = Inr m'"
    and valid: "img < length h"
  shows "\<exists>ts h'. get_google_blocks L page img h = (Inr (ts, length h), h')"
proof -
  let ?I = "\<lambda>h'. length h < length h'"
  have "?I (h @ [h ! img])" by simp
  then have "\<exists>ts h2. for_loop (\<lambda>block texts h'.
        let texts' = texts @ [get_block_text block] in
        case add_bounding_box L (length h) (vertices (block_bounding_box block)) h' of
          (Inl e, h'') \<Rightarrow> (Inl e, h'')
        | (Inr _, h'') \<Rightarrow> (Inr texts', h''))
      (blocks page) [] (h @ [h ! img]) = (Inr ts, h2) \<and> ?I h2"
    by (intro for_loop_returns [where I = ?I] annotate_returns total)
  with valid show ?thesis
    by (auto simp: get_google_blocks_def ndarray_copy_cases)
qed

text \<open>
  C10. When one of the three renderers returns, its list of texts is the list of the
  reconstructed texts of the nodes of its level, one per node, in the order of the
  traversal: the blocks of the page; the paragraphs of the blocks; the words of the
  paragraphs of the blocks. And it does return, with the copy as its second result,
  when the image is an allocated array and drawing does not raise.
\<close>

theorem google_text_lists_follow_traversal:
  "(fst (get_google_blocks L page img h) = Inr (texts, r) \<longrightarrow>
      texts = map get_block_text (blocks page) \<and> length texts = length (blocks page)) \<and>
   (fst (get_google_paragraphs L page img h) = Inr (texts, r) \<longrightarrow>
      texts = map get_paragraph_text (concat (map paragraphs (blocks page))) \<and>
      length texts = length (concat (map paragraphs (blocks page)))) \<and>
   (fst (get_google_words L page img h) = Inr (texts, r) \<longrightarrow>
      texts = map get_word_text (concat (map words (concat (map paragraphs (blocks page))))) \<and>
      length texts = length (concat (map words (concat (map paragraphs (blocks page)))))) \<and>
   (img < length h \<longrightarrow> (\<forall>m pts. \<exists>m'. cv2_polylines L m pts True (255, 0, 0) 2 = Inr m') \<longrightarrow>
      fst (get_google_blocks L page img h) = Inr (map get_block_text (blocks page), length h) \<and>
      fst (get_google_paragraphs L page img h) =
        Inr (map get_paragraph_text (concat (map paragraphs (blocks page))), length h) \<and>
      fst (get_google_words L page img h) =
        Inr (map get_word_text (concat (map words (concat (map paragraphs (blocks page))))),
             length h))"
proof (intro conjI impI)
  assume valid: "img < length h"
    and total: "\<forall>m pts. \<exists>m'. cv2_polylines L m pts True (255, 0, 0) 2 = Inr m'"
  from get_google_blocks_returns [of L img h page] valid total
  obtain ts h' where b: "get_google_blocks L page img h = (Inr (ts, length h), h')" by blast
  with get_google_blocks_texts [of L page img h ts "length h"]
  show "fst (get_google_blocks L page img h) = Inr (map get_block_text (blocks page), length h)"
    by simp
  from get_google_paragraphs_returns [of L img h page] valid total
  obtain ts h' where p: "get_google_paragraphs L page img h = (Inr (ts, length h), h')" by blast
  with get_google_paragraphs_texts [of L page img h ts "length h"]
  show "fst (get_google_paragraphs L page img h) =
    Inr (map get_paragraph_text (concat (map paragraphs (blocks page))), length h)"
    by simp
  from get_google_words_returns [of L img h page] valid total
  obtain ts h' where w: "get_google_words L page img h = (Inr (ts, length h), h')" by blast
  with get_google_words_texts [of L page img h ts "length h"]
  show "fst (get_google_words L page img h) =
    Inr (map get_word_text (concat (map words (concat (map paragraphs (blocks page))))), length h)"
    by simp
next
  assume "fst (get_google_blocks L page img h) = Inr (texts, r)"
  then have t: "texts = map get_block_text (blocks page)" by (rule get_google_blocks_texts)
  then show "texts = map get_block_text (blocks page)"
    and "length texts = length (blocks page)" by simp_all
next
  assume "fst (get_google_paragraphs L page img h) = Inr (texts, r)"
  then have t: "texts = map get_paragraph_text (concat (map paragraphs (blocks page)))"
    by (rule get_google_paragraphs_texts)
  then show "texts = map get_paragraph_text (concat (map paragraphs (blocks page)))"
    and "length texts = length (concat (map paragraphs (blocks page)))"
    by (simp_all del: length_concat)
next
  assume "fst (get_google_words L page img h) = Inr (texts, r)"
  then have t: "texts = map get_word_text (concat (map words (concat (map paragraphs (blocks page)))))"
    by (rule get_google_words_texts)
  then show "texts = map get_word_text (concat (map words (concat (map paragraphs (blocks page)))))"
    and "length texts = length (concat (map words (concat (map paragraphs (blocks page)))))"
    by (simp_all del: length_concat)
qed

lemmas page_eval = sample_page_def sample_block1_def sample_block2_def sample_word1_def
  sample_word2_def sample_word3_def sample_word4_def sample_symbol_def sample_break_def
  sample_box_def

lemma sample_texts:
  "get_word_text sample_word1 = ''Hi ''" "get_word_text sample_word2 = ''yo ''"
  "get_word_text sample_word3 = ''ok''" "get_word_text sample_word4 = ''go''"
  by (simp_all add: get_word_text_def get_symbol_text_def HasField_detected_break_def
      get_detected_break_def page_eval)

lemma sample_page_texts:
  "map get_block_text (blocks sample_page) = [''Hi yo ok'', ''go'']"
  "map get_paragraph_text (concat (map paragraphs (blocks sample_page))) = [''Hi yo '', ''ok'', ''go'']"
  "map get_word_text (concat (map words (concat (map paragraphs (blocks sample_page))))) =
     [''Hi '', ''yo '', ''ok'', ''go'']"
  by (simp_all add: get_block_text_def get_paragraph_text_def sample_texts
      sample_page_def sample_block1_def sample_block2_def)

theorem google_text_lists_follow_traversal_witness:
  "fst (get_google_blocks demo_lib sample_page 0 [sample_image]) = Inr ([''Hi yo ok'', ''go''], 1) \<and>
   fst (get_google_paragraphs demo_lib sample_page 0 [sample_image]) =
     Inr ([''Hi yo '', ''ok'', ''go''], 1) \<and>
   fst (get_google_words demo_lib sample_page 0 [sample_image]) =
     Inr ([''Hi '', ''yo '', ''ok'', ''go''], 1)"
proof -
  have total: "\<forall>m pts. \<exists>m'. cv2_polylines demo_lib m pts True (255, 0, 0) 2 = Inr m'"
    by (simp add: demo_lib_def)
  have valid: "0 < length [sample_image]" by simp
  note inst = google_text_lists_follow_traversal [of demo_lib sample_page 0 "[sample_image]" "[]" 0]
  from inst valid total
  have "fst (get_google_blocks demo_lib sample_page 0 [sample_image]) =
          Inr (map get_block_text (blocks sample_page), length [sample_image]) \<and>
        fst (get_google_paragraphs demo_lib sample_page 0 [sample_image]) =
          Inr (map get_paragraph_text (concat (map paragraphs (blocks sample_page))),
               length [sample_image]) \<and>
        fst (get_google_words demo_lib sample_page 0 [sample_image]) =
          Inr (map get_word_text (concat (map words (concat (map paragraphs (blocks sample_page))))),
               length [sample_image])"
    by blast
  then show ?thesis
    by (simp only: sample_page_texts) simp
qed


subsection \<open>Overlay of the local engine's results\<close>

lemma for_loop_length:
  assumes step: "\<And>v acc h acc' h'. body v acc h = (Inr acc', h') \<Longrightarrow> length acc' = Suc (length acc)"
  shows "for_loop body xs acc h = (Inr acc', h') \<Longrightarrow> length acc' = length acc + length xs"
proof (induction xs arbitrary: acc h)
  case Nil
  then show ?case by simp
next
  case (Cons v vs)
  show ?case
  proof (cases "body v acc h")
    case (Pair r h1)
    show ?thesis
    proof (cases r)
      case (Inl e)
      with Pair Cons.prems show ?thesis by simp
    next
      case (Inr acc1)
      with Pair have "length acc1 = Suc (length acc)" by (auto dest: step)
      moreover from Pair Inr Cons.prems have "for_loop body vs acc1 h1 = (Inr acc', h')" by simp
      then have "length acc' = length acc1 + length vs" by (rule Cons.IH)
      ultimately show ?thesis by simp
    qed
  qed
qed

lemma case_run_snd:
  "snd (case X of (Inl e, h2) \<Rightarrow> (Inl e, h2) | (Inr v, h2) \<Rightarrow> (Inr (F v), h2)) = snd X"
  by (cases X) (auto split: sum.splits)

lemma case_run_Inr:
  "(case X of (Inl e, h2) \<Rightarrow> (Inl e, h2) | (Inr v, h2) \<Rightarrow> (Inr (F v), h2)) = (Inr w, h') \<longleftrightarrow>
   (\<exists>v. X = (Inr v, h') \<and> w = F v)"
  by (cases X) (auto split: sum.splits)

lemma draw_tesseract_node_store:
  "snd (draw_tesseract_node L level img1 r tokens h') = h' \<or>
   (\<exists>m. snd (draw_tesseract_node L level img1 r tokens h') = h'[img1 := m])"
  by (auto simp: draw_tesseract_node_def split: sum.splits option.splits prod.splits)

lemma draw_tesseract_nodes_frame:
  assumes "n \<le> img1"
  shows "length h1 = k \<and> take n h1 = h0 \<Longrightarrow>
    length (snd (for_loop (draw_tesseract_node L level img1) nodes acc h1)) = k \<and>
    take n (snd (for_loop (draw_tesseract_node L level img1) nodes acc h1)) = h0"
proof (rule for_loop_invariant [where I = "\<lambda>h'. length h' = k \<and> take n h' = h0"])
  fix r tokens h'
  assume "length h' = k \<and> take n h' = h0"
  with draw_tesseract_node_store [of L level img1 r tokens h'] assms
  show "length (snd (draw_tesseract_node L level img1 r tokens h')) = k \<and>
        take n (snd (draw_tesseract_node L level img1 r tokens h')) = h0"
    by auto
qed

lemma display_tesseract_mode_frame:
  assumes "length h \<le> length h0" "take (length h) h0 = h"
  shows "length h \<le> length (snd (display_tesseract_mode L img level v shown h0)) \<and>
         take (length h) (snd (display_tesseract_mode L img level v shown h0)) = h"
proof -
  obtain name tesseract ax where v: "v = ((name, tesseract), ax)" by (cases v) auto
  have "length (h0 @ [h0 ! img]) = Suc (length h0) \<and> take (length h) (h0 @ [h0 ! img]) = h"
    using assms by simp
  from draw_tesseract_nodes_frame [OF assms(1) this]
  show ?thesis
    using assms
    by (simp add: display_tesseract_mode_def v ndarray_copy_cases deref_def case_run_snd
        split: sum.splits)
qed

lemma display_tesseract_results_frame:
  "take (length h) (snd (display_tesseract_results L img level h)) = h"
proof -
  let ?I = "\<lambda>h'. length h \<le> length h' \<and> take (length h) h' = h"
  have "?I (snd (display_tesseract_results L img level h))"
    unfolding display_tesseract_results_def Let_def
    by (rule for_loop_invariant [where I = ?I]) (simp_all add: display_tesseract_mode_frame)
  then show ?thesis by simp
qed

lemma display_tesseract_mode_returns:
  assumes "display_tesseract_mode L img level v shown h0 = (Inr shown', h2)"
  shows "length h2 = Suc (length h0) \<and>
         map (\<lambda>(ax, name, tokens, r). r) shown' = map (\<lambda>(ax, name, tokens, r). r) shown @ [length h0]"
proof -
  obtain name tesseract ax where v: "v = ((name, tesseract), ax)" by (cases v) auto
  from assms obtain tokens nodes where
    fl: "for_loop (draw_tesseract_node L level (length h0)) nodes [] (h0 @ [h0 ! img]) = (Inr tokens, h2)"
    and shown': "shown' = shown @ [(ax, name, tokens, length h0)]"
    by (auto simp: display_tesseract_mode_def v ndarray_copy_cases deref_def case_run_Inr
        split: sum.splits if_splits)
  from draw_tesseract_nodes_frame
         [of 0 "length h0" "h0 @ [h0 ! img]" "Suc (length h0)" "[]" L level nodes "[]"] fl
  have "length h2 = Suc (length h0)" by simp
  with shown' show ?thesis by simp
qed

lemma display_tesseract_results_fresh:
  assumes "fst (display_tesseract_results L img level h) = Inr shown"
  shows "map (\<lambda>(ax, name, tokens, r). r) shown = [length h, length h + 1, length h + 2] \<and>
         length (snd (display_tesseract_results L img level h)) = length h + 3"
proof -
  let ?ref = "\<lambda>(ax :: nat, name :: string, tokens :: string list, r :: nat). r"
  let ?J = "\<lambda>acc h'. length h' = length h + length acc \<and> map ?ref acc = [length h ..< length h']"
  let ?h' = "snd (display_tesseract_results L img level h)"
  from assms have "display_tesseract_results L img level h = (Inr shown, ?h')"
    by (metis prod.collapse)
  then have run:
    "for_loop (display_tesseract_mode L img level)
       (zip tesseract_modes [0..<length tesseract_modes]) [] h = (Inr shown, ?h')"
    by (simp only: display_tesseract_results_def Let_def)
  have "?J shown ?h'"
  proof (rule for_loop_joint [where J = ?J, OF _ _ run])
    fix v acc h0 acc' h2
    assume J: "?J acc h0" and b: "display_tesseract_mode L img level v acc h0 = (Inr acc', h2)"
    from display_tesseract_mode_returns [OF b] J
    show "?J acc' h2" by (auto dest: arg_cong [where f = length])
  next
    show "?J [] h" by simp
  qed
  moreover have "length shown = length ([] :: (nat \<times> string \<times> string list \<times> nat) list) +
      length (zip tesseract_modes [0..<length tesseract_modes])"
    using run
  proof (rule for_loop_length [rotated])
    fix v acc h0 acc' h2
    assume "display_tesseract_mode L img level v acc h0 = (Inr acc', h2)"
    from display_tesseract_mode_returns [OF this]
    show "length acc' = Suc (length acc)" by (auto dest: arg_cong [where f = length])
  qed
  then have "length shown = 3" by (simp add: tesseract_modes_def)
  ultimately show ?thesis by (simp add: upt_rec)
qed

subsection \<open>The input image is left alone\<close>

lemma add_bounding_box_length:
  "length (snd (add_bounding_box L img bb h)) = length h"
  using add_bounding_box_store [of L img bb h] by auto

lemma get_google_words_length:
  assumes "img < length h"
  shows "length (snd (get_google_words L page img h)) = Suc (length h)"
proof -
  let ?I = "\<lambda>h'. length h' = Suc (length h)"
  have "?I (snd (for_loop (\<lambda>block.
                  for_loop (\<lambda>para.
                    for_loop (\<lambda>word texts h'.
                      let texts' = texts @ [get_word_text word] in
                      case add_bounding_box L (length h) (vertices (word_bounding_box word)) h' of
                        (Inl e, h'') \<Rightarrow> (Inl e, h'')
                      | (Inr _, h'') \<Rightarrow> (Inr texts', h''))
                    (words para))
                  (paragraphs block))
                (blocks page) [] (h @ [h ! img])))"
    by (intro for_loop_invariant [where I = ?I])
       (simp_all only: annotate_store add_bounding_box_length, simp_all)
  with assms show ?thesis
    by (simp add: get_google_words_def ndarray_copy_cases finish_snd)
qed

lemma get_google_paragraphs_length:
  assumes "img < length h"
  shows "length (snd (get_google_paragraphs L page img h)) = Suc (length h)"
proof -
  let ?I = "\<lambda>h'. length h' = Suc (length h)"
  have "?I (snd (for_loop (\<lambda>block.
                  for_loop (\<lambda>para texts h'.
                    let texts' = texts @ [get_paragraph_text para] in
                    case add_bounding_box L (length h) (vertices (paragraph_bounding_box para)) h' of
                      (Inl e, h'') \<Rightarrow> (Inl e, h'')
                    | (Inr _, h'') \<Rightarrow> (Inr texts', h''))
                  (paragraphs block))
                (blocks page) [] (h @ [h ! img])))"
    by (intro for_loop_invariant [where I = ?I])
       (simp_all only: annotate_store add_bounding_box_length, simp_all)
  with assms show ?thesis
    by (simp add: get_google_paragraphs_def ndarray_copy_cases finish_snd)
qed

lemma get_google_blocks_length:
  assumes "img < length h"
  shows "length (snd (get_google_blocks L page img h)) = Suc (length h)"
proof -
  let ?I = "\<lambda>h'. length h' = Suc (length h)"
  have "?I (snd (for_loop (\<lambda>block texts h'.
                  let texts' = texts @ [get_block_text block] in
                  case add_bounding_box L (length h) (vertices (block_bounding_box block)) h' of
                    (Inl e, h'') \<Rightarrow> (Inl e, h'')
                  | (Inr _, h'') \<Rightarrow> (Inr texts', h''))
                (blocks page) [] (h @ [h ! img])))"
    by (intro for_loop_invariant [where I = ?I])
       (simp_all only: annotate_store add_bounding_box_length, simp_all)
  with assms show ?thesis
    by (simp add: get_google_blocks_def ndarray_copy_cases finish_snd)
qed

text \<open>
  C6. Every array that exists when a renderer is called, the caller's image among them,
  is unchanged when the renderer returns or raises: the renderers only allocate and
  draw on arrays of their own. A renderer of the cloud results that returns has
  allocated exactly one array, the copy it returns; the Tesseract display that returns
  has allocated three, one for each engine configuration, and shows each on its axis.
\<close>

theorem renderers_draw_on_fresh_copies:
  "take (length h) (snd (get_google_words L page img h)) = h \<and>
   take (length h) (snd (get_google_paragraphs L page img h)) = h \<and>
   take (length h) (snd (get_google_blocks L page img h)) = h \<and>
   take (length h) (snd (display_tesseract_results L img level h)) = h \<and>
   (fst (get_google_words L page img h) = Inr (texts, r) \<longrightarrow>
      r = length h \<and> length (snd (get_google_words L page img h)) = Suc (length h)) \<and>
   (fst (get_google_paragraphs L page img h) = Inr (texts, r) \<longrightarrow>
      r = length h \<and> length (snd (get_google_paragraphs L page img h)) = Suc (length h)) \<and>
   (fst (get_google_blocks L page img h) = Inr (texts, r) \<longrightarrow>
      r = length h \<and> length (snd (get_google_blocks L page img h)) = Suc (length h)) \<and>
   (fst (display_tesseract_results L img level h) = Inr shown \<longrightarrow>
      map (\<lambda>(ax, name, tokens, r). r) shown = [length h, length h + 1, length h + 2] \<and>
      length (snd (display_tesseract_results L img level h)) = length h + 3)"
proof -
  have "r = length h \<and> length (snd (get_google_words L page img h)) = Suc (length h)"
    if "fst (get_google_words L page img h) = Inr (texts, r)"
    using get_google_fresh(1) [OF that] by (simp add: get_google_words_length)
  moreover
  have "r = length h \<and> length (snd (get_google_paragraphs L page img h)) = Suc (length h)"
    if "fst (get_google_paragraphs L page img h) = Inr (texts, r)"
    using get_google_fresh(2) [OF that] by (simp add: get_google_paragraphs_length)
  moreover
  have "r = length h \<and> length (snd (get_google_blocks L page img h)) = Suc (length h)"
    if "fst (get_google_blocks L page img h) = Inr (texts, r)"
    using get_google_fresh(3) [OF that] by (simp add: get_google_blocks_length)
  ultimately show ?thesis
    using display_tesseract_results_fresh [of L img level h shown]
    by (simp add: get_google_words_frame get_google_paragraphs_frame get_google_blocks_frame
        display_tesseract_results_frame)
qed

lemma demo_draw:
  "add_bounding_box demo_lib (Suc 0) bb [m0, m] = (Inr (), [m0, paint m])"
  by (simp add: add_bounding_box_def deref_def demo_lib_def)

lemma paint_sample: "paint (paint sample_image) = paint sample_image"
  by (simp add: paint_def sample_image_def)

lemma demo_words:
  "get_google_words demo_lib sample_page 0 [sample_image] =
     (Inr ([''Hi '', ''yo '', ''ok'', ''go''], 1), [sample_image, paint sample_image])"
  by (simp add: get_google_words_def ndarray_copy_def deref_def demo_draw paint_sample
      sample_texts sample_page_def sample_block1_def sample_block2_def)

lemma demo_paragraphs:
  "get_google_paragraphs demo_lib sample_page 0 [sample_image] =
     (Inr ([''Hi yo '', ''ok'', ''go''], 1), [sample_image, paint sample_image])"
  by (simp add: get_google_paragraphs_def ndarray_copy_def deref_def demo_draw paint_sample
      get_paragraph_text_def sample_texts sample_page_def sample_block1_def sample_block2_def)

lemma demo_blocks:
  "get_google_blocks demo_lib sample_page 0 [sample_image] =
     (Inr ([''Hi yo ok'', ''go''], 1), [sample_image, paint sample_image])"
  by (simp add: get_google_blocks_def ndarray_copy_def deref_def demo_draw paint_sample
      get_block_text_def get_paragraph_text_def sample_texts sample_page_def sample_block1_def
      sample_block2_def)

lemma demo_mode:
  "display_tesseract_mode demo_lib 0 WORD ((name, psm), ax) shown (sample_image # hs) =
     (Inr (shown @ [(ax, name, [''Hi''], Suc (length hs))]), sample_image # hs @ [paint sample_image])"
  by (simp add: display_tesseract_mode_def draw_tesseract_node_def tesseract_ocr_def
      ndarray_copy_def deref_def demo_lib_def channels_are_def sample_image_def nth_append)

lemma demo_display:
  "display_tesseract_results demo_lib 0 WORD [sample_image] =
     (Inr [(0, ''Tesseract SINGLE BLOCK'', [''Hi''], 1),
           (1, ''Tesseract SPARSE TEXT'', [''Hi''], 2),
           (2, ''Tesseract SINGLE COLUMN'', [''Hi''], 3)],
      [sample_image, paint sample_image, paint sample_image, paint sample_image])"
  by (simp add: display_tesseract_results_def tesseract_modes_def demo_mode upt_rec)

lemma paint_differs: "paint sample_image \<noteq> sample_image"
  by (simp add: paint_def sample_image_def)

theorem renderers_draw_on_fresh_copies_witness:
  "get_google_words demo_lib sample_page 0 [sample_image] =
     (Inr ([''Hi '', ''yo '', ''ok'', ''go''], 1), [sample_image, paint sample_image]) \<and>
   get_google_paragraphs demo_lib sample_page 0 [sample_image] =
     (Inr ([''Hi yo '', ''ok'', ''go''], 1), [sample_image, paint sample_image]) \<and>
   get_google_blocks demo_lib sample_page 0 [sample_image] =
     (Inr ([''Hi yo ok'', ''go''], 1), [sample_image, paint sample_image]) \<and>
   display_tesseract_results demo_lib 0 WORD [sample_image] =
     (Inr [(0, ''Tesseract SINGLE BLOCK'', [''Hi''], 1),
           (1, ''Tesseract SPARSE TEXT'', [''Hi''], 2),
           (2, ''Tesseract SINGLE COLUMN'', [''Hi''], 3)],
      [sample_image, paint sample_image, paint sample_image, paint sample_image]) \<and>
   paint sample_image \<noteq> sample_image"
  using renderers_draw_on_fresh_copies [of "[sample_image]" demo_lib sample_page 0 WORD "[''Hi '', ''yo '', ''ok'', ''go'']" 1
      "[(0, ''Tesseract SINGLE BLOCK'', [''Hi''], 1),
           (1, ''Tesseract SPARSE TEXT'', [''Hi''], 2),
           (2, ''Tesseract SINGLE COLUMN'', [''Hi''], 3)]"]
  by (simp add: demo_words demo_paragraphs demo_blocks demo_display paint_differs)

subsection \<open>Optional preprocessing\<close>

lemma threshold_flags:
  "THRESH_BINARY OR THRESH_OTSU = 8"
  "take_bit 3 (8::nat) = 0"
  "drop_bit 3 (8::nat) = 1"
  by (simp_all add: THRESH_BINARY_def THRESH_OTSU_def take_bit_eq_mod drop_bit_eq_div)

lemma concat_map_rows_empty: "concat (map (map f) m) = [] \<longleftrightarrow> concat m = []"
  by (induction m) simp_all

lemma channels_are_map:
  "(\<And>px. length (f px) = n) \<Longrightarrow> channels_are n (map (map f) m)"
  by (simp add: channels_are_def list_all_iff)

lemma channels_are_map_map:
  "channels_are n m \<Longrightarrow> channels_are n (map (map (map f)) m)"
  by (simp add: channels_are_def list_all_iff)

lemma threshold_pixel_binary: "threshold_pixel 0 t 255 v = 0 \<or> threshold_pixel 0 t 255 v = 255"
  by (simp add: threshold_pixel_def)

lemma pixel_values_binary:
  "set (pixel_values (map (map (map (threshold_pixel 0 t 255))) m)) \<subseteq> {0, 255}"
  using threshold_pixel_binary by (auto simp: pixel_values_def)

lemma cvtColor_gray:
  assumes "concat img \<noteq> []" "channels_are 3 img"
  shows "cvtColor L (Some img) COLOR_BGR2GRAY =
         Inr (map (map (\<lambda>px. [gray_of_bgr L (px ! 0) (px ! 1) (px ! 2)])) img)"
  using assms by (simp add: cvtColor_def)

lemma threshold_step_result:
  assumes "concat img \<noteq> []" "channels_are 3 img"
  shows "threshold_step L (Some img) =
     Inr (otsu_threshold L (map (map (\<lambda>px. [gray_of_bgr L (px ! 0) (px ! 1) (px ! 2)])) img),
          map (map (map (threshold_pixel 0
              (otsu_threshold L (map (map (\<lambda>px. [gray_of_bgr L (px ! 0) (px ! 1) (px ! 2)])) img))
              255)))
            (map (map (\<lambda>px. [gray_of_bgr L (px ! 0) (px ! 1) (px ! 2)])) img))"
proof -
  let ?gray = "map (map (\<lambda>px. [gray_of_bgr L (px ! 0) (px ! 1) (px ! 2)])) img"
  have "concat ?gray \<noteq> []" using assms(1) by (simp only: concat_map_rows_empty not_False_eq_True)
  moreover have "channels_are 1 ?gray" by (rule channels_are_map) simp
  ultimately show ?thesis
    using cvtColor_gray [OF assms, of L]
    by (simp add: threshold_step_def cv2_threshold_def threshold_flags Let_def)
qed

lemma threshold_pixel_binary_eq:
  "threshold_pixel 0 t 255 = (\<lambda>v. if t < unat v then 255 else 0)"
  by (rule ext) (simp add: threshold_pixel_def)

text \<open>
  C5. For a non-empty colour image (three channels, as the loader's colour decoding
  gives), the step under the toggle succeeds. The grayscale image has one value for
  each pixel; the threshold used is the one Otsu's method selects on the grayscale
  image; the single-channel intermediate is the grayscale image with every value above
  that threshold replaced by 255 and every other value by 0, so it has the shape of
  the input and all its values are 0 or 255; and the result is that intermediate with
  each value repeated on three channels. With the toggle off the image is passed on as
  it is, so in both cases what follows sees three channels.
\<close>

theorem preprocess_binarizes_and_restores_channels:
  assumes "concat img \<noteq> []" and "channels_are 3 img"
  shows "\<exists>gray t bw out.
     gray = map (map (\<lambda>px. [gray_of_bgr L (px ! 0) (px ! 1) (px ! 2)])) img \<and>
     cvtColor L (Some img) COLOR_BGR2GRAY = Inr gray \<and>
     t = otsu_threshold L gray \<and>
     bw = map (map (map (\<lambda>v. if t < unat v then 255 else 0))) gray \<and>
     threshold_step L (Some img) = Inr (t, bw) \<and>
     channels_are 1 bw \<and> map length bw = map length img \<and>
     set (pixel_values bw) \<subseteq> {0, 255} \<and>
     out = map (map (\<lambda>px. [px ! 0, px ! 0, px ! 0])) bw \<and>
     preprocess L True (Some img) = Inr (Some out) \<and>
     channels_are 3 out \<and> map length out = map length img \<and>
     preprocess L False (Some img) = Inr (Some img)"
proof -
  let ?gray = "map (map (\<lambda>px. [gray_of_bgr L (px ! 0) (px ! 1) (px ! 2)])) img"
  let ?t = "otsu_threshold L ?gray"
  let ?bw = "map (map (map (\<lambda>v. if ?t < unat v then 255 else 0))) ?gray"
  let ?out = "map (map (\<lambda>px. [px ! 0, px ! 0, px ! 0])) ?bw"
  have step: "threshold_step L (Some img) = Inr (?t, ?bw)"
    using threshold_step_result [OF assms, of L] by (simp only: threshold_pixel_binary_eq)
  have gray1: "channels_are 1 ?gray" by (rule channels_are_map) simp
  then have bw1: "channels_are 1 ?bw" by (rule channels_are_map_map)
  have "concat ?gray \<noteq> []" using assms(1) by (simp only: concat_map_rows_empty not_False_eq_True)
  then have "concat ?bw \<noteq> []" by (simp only: concat_map_rows_empty not_False_eq_True)
  with bw1 have expand: "cvtColor L (Some ?bw) COLOR_GRAY2BGR = Inr ?out"
    by (simp add: cvtColor_def)
  have pre: "preprocess L True (Some img) = Inr (Some ?out)"
    by (simp only: preprocess_def if_True step expand sum.case prod.case)
  have off: "preprocess L False (Some img) = Inr (Some img)"
    by (simp add: preprocess_def)
  have out3: "channels_are 3 ?out" by (rule channels_are_map) simp
  have shape: "map length ?bw = map length img" "map length ?out = map length img"
    by simp_all
  have binary: "set (pixel_values ?bw) \<subseteq> {0, 255}"
    using pixel_values_binary [of ?t ?gray] by (simp only: threshold_pixel_binary_eq)
  from cvtColor_gray [OF assms, of L] step bw1 shape binary pre out3 off
  show ?thesis by blast
qed

theorem preprocess_binarizes_and_restores_channels_witness:
  "concat [[[10, 100, 20], [30, 200, 40 :: 8 word]]] \<noteq> [] \<and>
   channels_are 3 [[[10, 100, 20], [30, 200, 40]]] \<and>
   cvtColor demo_lib (Some [[[10, 100, 20], [30, 200, 40]]]) COLOR_BGR2GRAY =
     Inr [[[100], [200]]] \<and>
   threshold_step demo_lib (Some [[[10, 100, 20], [30, 200, 40]]]) = Inr (127, [[[0], [255]]]) \<and>
   preprocess demo_lib True (Some [[[10, 100, 20], [30, 200, 40]]]) =
     Inr (Some [[[0, 0, 0], [255, 255, 255]]]) \<and>
   preprocess demo_lib False (Some [[[10, 100, 20], [30, 200, 40]]]) =
     Inr (Some [[[10, 100, 20], [30, 200, 40]]])"
proof -
  let ?img = "[[[10, 100, 20], [30, 200, 40 :: 8 word]]]"
  have a: "concat ?img \<noteq> []" and b: "channels_are 3 ?img"
    by (simp_all add: channels_are_def)
  from preprocess_binarizes_and_restores_channels [OF a b, of demo_lib] obtain gray t bw out where
    "gray = map (map (\<lambda>px. [gray_of_bgr demo_lib (px ! 0) (px ! 1) (px ! 2)])) ?img"
    "cvtColor demo_lib (Some ?img) COLOR_BGR2GRAY = Inr gray"
    "t = otsu_threshold demo_lib gray"
    "bw = map (map (map (\<lambda>v. if t < unat v then 255 else 0))) gray"
    "threshold_step demo_lib (Some ?img) = Inr (t, bw)"
    "out = map (map (\<lambda>px. [px ! 0, px ! 0, px ! 0])) bw"
    "preprocess demo_lib True (Some ?img) = Inr (Some out)"
    "preprocess demo_lib False (Some ?img) = Inr (Some ?img)"
    by blast
  then show ?thesis using a b by (simp add: demo_lib_def)
qed

end
